theory Spec2Isabelle
  imports Main
begin

section \<open>JavaScript values used by the program\<close>

text \<open>
  Strings are byte strings; only the ASCII letters have a lower-case form here.
  Numbers that the program reads with \<open>parseInt\<close> are integers or \<open>NaN\<close>.
\<close>

definition lower_char :: "char \<Rightarrow> char" where
  "lower_char c =
     (case map_of (zip ''ABCDEFGHIJKLMNOPQRSTUVWXYZ'' ''abcdefghijklmnopqrstuvwxyz'') c of
        Some l \<Rightarrow> l
      | None \<Rightarrow> c)"

definition toLowerCase :: "string \<Rightarrow> string" where
  "toLowerCase s = map lower_char s"

datatype number = Num int | NaN

text \<open>
  A number is a double. Every integer of magnitude up to \<open>2^53\<close> is a double; a larger
  integer that an operation produces is rounded to the nearest double, the one with
  the even mantissa when two are equally near. (The overflow to infinity near
  \<open>2^1024\<close> is left out.)
\<close>

function bit_length :: "int \<Rightarrow> nat" where
  "bit_length a = (if a \<le> 0 then 0 else Suc (bit_length (a div 2)))"
  by pat_completeness auto
termination
  by (relation "measure nat") auto

declare bit_length.simps [simp del]

definition to_double :: "int \<Rightarrow> int" where
  "to_double x =
     (let a = \<bar>x\<bar> in
      if a \<le> 2 ^ 53 then x
      else
        let q = 2 ^ (bit_length a - 53);
            m = a div q;
            rest = a mod q;
            r = (if q < 2 * rest \<or> (2 * rest = q \<and> odd m) then (m + 1) * q else m * q)
        in if x < 0 then - r else r)"

text \<open>
  \<open>Number.isSafeInteger\<close>, and the numbers that the store gives back as they were
  written: \<open>NaN\<close> and the integers up to \<open>2^53\<close>.
\<close>

fun isSafeInteger :: "number \<Rightarrow> bool" where
  "isSafeInteger NaN = False"
| "isSafeInteger (Num i) = (\<bar>i\<bar> < 2 ^ 53)"

fun exact_or_NaN :: "number \<Rightarrow> bool" where
  "exact_or_NaN NaN = True"
| "exact_or_NaN (Num i) = (\<bar>i\<bar> \<le> 2 ^ 53)"

definition digit_char :: "nat \<Rightarrow> char" where
  "digit_char d = ''0123456789'' ! d"

fun nat_to_dec :: "nat \<Rightarrow> string" where
  "nat_to_dec n = (if n < 10 then [digit_char n] else nat_to_dec (n div 10) @ [digit_char (n mod 10)])"

declare nat_to_dec.simps [simp del]

text \<open>
  \<open>Number.prototype.toString()\<close> on \<open>NaN\<close> and on an integer below \<open>10^21\<close>, where
  the result is the decimal digits; larger numbers, which are printed with an
  exponent, do not occur in what follows.
\<close>

fun toString :: "number \<Rightarrow> string" where
  "toString NaN = ''NaN''"
| "toString (Num i) = (if i < 0 then CHR ''-'' # nat_to_dec (nat (- i)) else nat_to_dec (nat i))"

definition is_space :: "char \<Rightarrow> bool" where
  "is_space c = (let n = of_char c :: nat in (9 \<le> n \<and> n \<le> 13) \<or> n = 32)"

definition is_digit :: "char \<Rightarrow> bool" where
  "is_digit c = (let n = of_char c :: nat in 48 \<le> n \<and> n \<le> 57)"

definition digit_val :: "char \<Rightarrow> nat" where
  "digit_val c = of_char c - 48"

definition is_hex_digit :: "char \<Rightarrow> bool" where
  "is_hex_digit c =
     (let n = of_char c :: nat in (48 \<le> n \<and> n \<le> 57) \<or> (65 \<le> n \<and> n \<le> 70) \<or> (97 \<le> n \<and> n \<le> 102))"

definition hex_val :: "char \<Rightarrow> nat" where
  "hex_val c =
     (let n = of_char c :: nat in
      if n \<le> 57 then n - 48 else if n \<le> 70 then n - 55 else n - 87)"

definition dec_value :: "string \<Rightarrow> nat" where
  "dec_value z = foldl (\<lambda>acc c. acc * 10 + digit_val c) 0 z"

definition hex_value :: "string \<Rightarrow> nat" where
  "hex_value z = foldl (\<lambda>acc c. acc * 16 + hex_val c) 0 z"

text \<open>
  \<open>parseInt(s)\<close> with no radix: leading white space is skipped, a sign is read, a
  \<open>0x\<close>/\<open>0X\<close> prefix selects base 16, and the longest run of digits is the value,
  rounded to a double; no digit at all gives \<open>NaN\<close>.
\<close>

definition parse_digits :: "bool \<Rightarrow> string \<Rightarrow> number" where
  "parse_digits neg s =
     (let hex = (case s of c1 # c2 # _ \<Rightarrow> c1 = CHR ''0'' \<and> (c2 = CHR ''x'' \<or> c2 = CHR ''X'') | _ \<Rightarrow> False);
          z = (if hex then takeWhile is_hex_digit (drop 2 s) else takeWhile is_digit s)
      in if z = [] then NaN
         else let m = int (if hex then hex_value z else dec_value z)
              in Num (to_double (if neg then - m else m)))"

definition parseInt :: "string \<Rightarrow> number" where
  "parseInt str =
     (case dropWhile is_space str of
        [] \<Rightarrow> NaN
      | c # cs \<Rightarrow>
          if c = CHR ''-'' then parse_digits True cs
          else if c = CHR ''+'' then parse_digits False cs
          else parse_digits False (c # cs))"

text \<open>
  \<open>x + 1\<close> on a number: \<open>NaN + 1\<close> is \<open>NaN\<close>, and the sum is rounded to a double, so
  that \<open>2^53 + 1\<close> is \<open>2^53\<close>.
\<close>

fun plus_one :: "number \<Rightarrow> number" where
  "plus_one NaN = NaN"
| "plus_one (Num i) = Num (to_double (i + 1))"

section \<open>Amounts as decimal strings\<close>

text \<open>
  \<open>ethers.formatUnits(value, decimals)\<close> of the ethers library (version 6), for
  \<open>decimals > 0\<close>: the sign, the whole part, a decimal point, and the fraction to
  \<open>decimals\<close> places with its trailing zeros removed down to one digit.
  \<open>formatEther\<close> is \<open>formatUnits\<close> at 18 places. \<open>int_to_dec\<close> writes a
  non-negative BigInt in decimal.
\<close>

function int_to_dec :: "int \<Rightarrow> string" where
  "int_to_dec n =
     (if n < 10 then [digit_char (nat n)]
      else int_to_dec (n div 10) @ [digit_char (nat (n mod 10))])"
  by pat_completeness auto
termination
  by (relation "measure nat") auto

declare int_to_dec.simps [simp del]

definition strip_trailing_zeros :: "string \<Rightarrow> string" where
  "strip_trailing_zeros s = rev (dropWhile (\<lambda>c. c = CHR ''0'') (rev s))"

definition formatUnits :: "int \<Rightarrow> nat \<Rightarrow> string" where
  "formatUnits v decimals =
     (let a = \<bar>v\<bar>;
          whole = int_to_dec (a div 10 ^ decimals);
          digits = int_to_dec (a mod 10 ^ decimals);
          frac = strip_trailing_zeros (replicate (decimals - length digits) CHR ''0'' @ digits)
      in (if v < 0 then ''-'' else []) @ whole @ ''.'' @ (if frac = [] then ''0'' else frac))"

definition formatEther :: "int \<Rightarrow> string" where
  "formatEther v = formatUnits v 18"

text \<open>
  \<open>StringToBigInt\<close> of the language: the trimmed string is empty (giving 0), a signed
  run of decimal digits, or a run of binary, octal or hexadecimal digits behind
  \<open>0b\<close>, \<open>0o\<close>, \<open>0x\<close>; anything else is not a BigInt.
\<close>

definition trim :: "string \<Rightarrow> string" where
  "trim s = rev (dropWhile is_space (rev (dropWhile is_space s)))"

definition is_bin_digit :: "char \<Rightarrow> bool" where
  "is_bin_digit c = (c = CHR ''0'' \<or> c = CHR ''1'')"

definition is_oct_digit :: "char \<Rightarrow> bool" where
  "is_oct_digit c = (let n = of_char c :: nat in 48 \<le> n \<and> n \<le> 55)"

definition radix_value :: "nat \<Rightarrow> string \<Rightarrow> nat" where
  "radix_value b z = foldl (\<lambda>acc c. acc * b + hex_val c) 0 z"

definition digits_to_bigint :: "(char \<Rightarrow> bool) \<Rightarrow> nat \<Rightarrow> string \<Rightarrow> int option" where
  "digits_to_bigint ok b z = (if z \<noteq> [] \<and> list_all ok z then Some (int (radix_value b z)) else None)"

fun StringToBigInt_trimmed :: "string \<Rightarrow> int option" where
  "StringToBigInt_trimmed [] = Some 0"
| "StringToBigInt_trimmed (c # cs) =
     (if c = CHR ''-'' then map_option uminus (digits_to_bigint is_digit 10 cs)
      else if c = CHR ''+'' then digits_to_bigint is_digit 10 cs
      else if c = CHR ''0'' \<and> cs \<noteq> [] \<and> hd cs \<in> {CHR ''x'', CHR ''X''} then digits_to_bigint is_hex_digit 16 (tl cs)
      else if c = CHR ''0'' \<and> cs \<noteq> [] \<and> hd cs \<in> {CHR ''o'', CHR ''O''} then digits_to_bigint is_oct_digit 8 (tl cs)
      else if c = CHR ''0'' \<and> cs \<noteq> [] \<and> hd cs \<in> {CHR ''b'', CHR ''B''} then digits_to_bigint is_bin_digit 2 (tl cs)
      else digits_to_bigint is_digit 10 (c # cs))"

definition StringToBigInt :: "string \<Rightarrow> int option" where
  "StringToBigInt s = StringToBigInt_trimmed (trim s)"

text \<open>
  \<open>s >= y\<close> for a string \<open>s\<close> and a BigInt \<open>y\<close>: the string is converted with
  \<open>StringToBigInt\<close>, and the comparison is false when it is not a BigInt.
\<close>

definition string_ge_bigint :: "string \<Rightarrow> int \<Rightarrow> bool" where
  "string_ge_bigint s y = (case StringToBigInt s of None \<Rightarrow> False | Some x \<Rightarrow> y \<le> x)"

section \<open>RefRedis: the store of tracked nodes\<close>

text \<open>
  The Redis server holds one hash per node under \<open>prefix ^ "node:" ^ wallet\<close> and one
  set of wallets under \<open>prefix ^ "all_wallets"\<close>. Every hash is written by \<open>addNode\<close>
  with its six fields, all strings.
\<close>

record node_hash =
  h_id :: string
  h_name :: string
  h_wallet :: string
  h_refer :: string
  h_refer_id :: string
  h_lv :: string

record node_info =
  info_id :: string
  info_name :: string
  info_wallet :: string
  info_refer :: string
  info_refer_id :: string
  info_lv :: number

record RefRedis =
  key_prefix :: string
  hashes :: "string \<rightharpoonup> node_hash"
  sets :: "string \<Rightarrow> string set"

datatype error =
    NodeAlreadyExists string
  | NodeDoesNotExist string
  | TypeError string
  | RpcError string

definition nodeKey :: "RefRedis \<Rightarrow> string \<Rightarrow> string" where
  "nodeKey r wallet = key_prefix r @ ''node:'' @ toLowerCase wallet"

definition allWalletsKey :: "RefRedis \<Rightarrow> string" where
  "allWalletsKey r = key_prefix r @ ''all_wallets''"

text \<open>
  \<open>addNode\<close> throws when a hash is already stored under the wallet's key; the store
  it leaves is returned beside the outcome, so that a failed call shows what it left.
\<close>

definition addNode :: "RefRedis \<Rightarrow> node_info \<Rightarrow> (error + unit) \<times> RefRedis" where
  "addNode r info =
     (let wallet = toLowerCase (info_wallet info);
          key = nodeKey r wallet
      in if hashes r key \<noteq> None then (Inl (NodeAlreadyExists wallet), r)
         else
           let hash = \<lparr> h_id = info_id info, h_name = info_name info, h_wallet = wallet,
                        h_refer = toLowerCase (info_refer info), h_refer_id = info_refer_id info,
                        h_lv = toString (info_lv info) \<rparr>
           in (Inr (),
               r\<lparr> hashes := (hashes r)(key \<mapsto> hash),
                  sets := (sets r)(allWalletsKey r := insert wallet (sets r (allWalletsKey r))) \<rparr>))"

definition existsWallet :: "RefRedis \<Rightarrow> string \<Rightarrow> bool" where
  "existsWallet r wallet = (hashes r (nodeKey r (toLowerCase wallet)) \<noteq> None)"

text \<open>\<open>s || d\<close> on a string: the empty string is falsy.\<close>

definition or_default :: "string \<Rightarrow> string \<Rightarrow> string" where
  "or_default s d = (if s = [] then d else s)"

text \<open>
  \<open>addNodeLite\<close>; the identifier that \<open>generateId\<close> draws from the clock and the
  random source is the argument \<open>newId\<close>. The parent's hash is read under the key that
  \<open>existsWallet\<close> has just found, so the \<open>None\<close> branch of that read is never taken.
\<close>

definition addNodeLite :: "RefRedis \<Rightarrow> string \<Rightarrow> string \<Rightarrow> string \<Rightarrow> string \<Rightarrow> (error + unit) \<times> RefRedis" where
  "addNodeLite r newId wallet0 name refer0 =
     (let wallet = toLowerCase wallet0;
          refer = toLowerCase refer0;
          existsRef = existsWallet r refer;
          (lv, referIdChain) =
            (if \<not> existsRef then (Num 1, [])
             else
               (case hashes r (nodeKey r refer) of
                  Some parent \<Rightarrow>
                    let parentLv = parseInt (or_default (h_lv parent) ''0'');
                        parentReferId = or_default (h_refer_id parent) [];
                        lv = plus_one parentLv
                    in if parentReferId \<noteq> [] \<and> length parentReferId > 0
                       then (lv, parentReferId @ '';'' @ h_id parent)
                       else (lv, h_id parent)
                | None \<Rightarrow> (Num 1, [])))
      in addNode r \<lparr> info_id = newId, info_name = name, info_wallet = wallet, info_refer = refer,
                     info_refer_id = referIdChain, info_lv = lv \<rparr>)"

definition getNodeInfo :: "RefRedis \<Rightarrow> string \<Rightarrow> node_info option" where
  "getNodeInfo r wallet0 =
     (case hashes r (nodeKey r (toLowerCase wallet0)) of
        None \<Rightarrow> None
      | Some obj \<Rightarrow>
          Some \<lparr> info_id = h_id obj, info_name = h_name obj, info_wallet = h_wallet obj,
                 info_refer = h_refer obj, info_refer_id = h_refer_id obj,
                 info_lv = parseInt (or_default (h_lv obj) ''0'') \<rparr>)"

definition getAllWallets :: "RefRedis \<Rightarrow> string set" where
  "getAllWallets r = sets r (allWalletsKey r)"

definition removeNode :: "RefRedis \<Rightarrow> string \<Rightarrow> RefRedis" where
  "removeNode r originalWallet =
     (let wallet = toLowerCase originalWallet;
          key = nodeKey r wallet
      in r\<lparr> hashes := (hashes r)(key := None),
            sets := (sets r)(allWalletsKey r := sets r (allWalletsKey r) - {originalWallet} - {wallet}) \<rparr>)"

text \<open>
  The invariant of a stored node as the specification words it: a node without referrer
  is at level 1 with an empty ancestor chain; any other node is one level below the
  stored node of its referrer and carries that node's chain extended by its id.
\<close>

definition spec_level_invariant :: "RefRedis \<Rightarrow> string \<Rightarrow> bool" where
  "spec_level_invariant r wallet =
     (case getNodeInfo r wallet of
        None \<Rightarrow> True
      | Some n \<Rightarrow>
          if info_refer n = [] then info_lv n = Num 1 \<and> info_refer_id n = []
          else
            (case getNodeInfo r (info_refer n) of
               None \<Rightarrow> False
             | Some p \<Rightarrow>
                 (case info_lv p of NaN \<Rightarrow> False | Num l \<Rightarrow> info_lv n = Num (l + 1)) \<and>
                 info_refer_id n =
                   (if info_refer_id p = [] then info_id p else info_refer_id p @ '';'' @ info_id p)))"

text \<open>
  A sequence of enrollments, each a call of \<open>addNodeLite\<close> with the identifier that
  \<open>generateId\<close> draws for it; the outcome of a call is dropped, as the callers do
  that catch the exception.
\<close>

record enrollment =
  e_id :: string
  e_wallet :: string
  e_name :: string
  e_refer :: string

fun enroll :: "RefRedis \<Rightarrow> enrollment list \<Rightarrow> RefRedis" where
  "enroll r [] = r"
| "enroll r (e # es) =
     enroll (snd (addNodeLite r (e_id e) (e_wallet e) (e_name e) (e_refer e))) es"

text \<open>
  Enrollments that put every referrer before the nodes it refers: each one is for a
  non-empty wallet that is not stored yet, and names no referrer or a referrer that
  is stored, at a level that is a safe integer.
\<close>

definition referrer_stored :: "RefRedis \<Rightarrow> enrollment \<Rightarrow> bool" where
  "referrer_stored r e =
     (toLowerCase (e_wallet e) \<noteq> [] \<and> \<not> existsWallet r (e_wallet e) \<and>
      (if toLowerCase (e_refer e) = [] then True
       else (case getNodeInfo r (e_refer e) of
               None \<Rightarrow> False
             | Some p \<Rightarrow> isSafeInteger (info_lv p))))"

fun referrers_first :: "RefRedis \<Rightarrow> enrollment list \<Rightarrow> bool" where
  "referrers_first r [] = True"
| "referrers_first r (e # es) =
     (referrer_stored r e \<and>
      referrers_first (snd (addNodeLite r (e_id e) (e_wallet e) (e_name e) (e_refer e))) es)"

text \<open>An empty store under the prefix \<open>ref:\<close>, and stores built from it by \<open>addNodeLite\<close>.\<close>

definition empty_store :: RefRedis where
  "empty_store = \<lparr> key_prefix = ''ref:'', hashes = Map.empty, sets = (\<lambda>_. {}) \<rparr>"

definition store_alice :: RefRedis where
  "store_alice = snd (addNodeLite empty_store ''id1'' ''0xABC1'' ''Alice'' [])"

definition store_late_parent :: RefRedis where
  "store_late_parent =
     snd (addNodeLite (snd (addNodeLite empty_store ''id1'' ''0xb2'' ''Bob'' ''0xa1''))
            ''id2'' ''0xa1'' ''Alice'' [])"

text \<open>
  The enrollments of the source's own test, Alice, Bob under Alice and Carol under
  Bob, followed by Dave without referrer and Erin under Alice.
\<close>

definition family :: "enrollment list" where
  "family =
     [\<lparr> e_id = ''id1'', e_wallet = ''0xABC1'', e_name = ''Alice'', e_refer = [] \<rparr>,
      \<lparr> e_id = ''id2'', e_wallet = ''0xdef2'', e_name = ''Bob'', e_refer = ''0xabc1'' \<rparr>,
      \<lparr> e_id = ''id3'', e_wallet = ''0xghi3'', e_name = ''Carol'', e_refer = ''0xDEF2'' \<rparr>,
      \<lparr> e_id = ''id4'', e_wallet = ''0xd4'', e_name = ''Dave'', e_refer = [] \<rparr>,
      \<lparr> e_id = ''id5'', e_wallet = ''0xe5'', e_name = ''Erin'', e_refer = ''0xabc1'' \<rparr>]"

text \<open>
  Two stores outside these conditions: one where a node was stored under the empty
  wallet before Bob is enrolled without referrer, and one where Bob is enrolled under
  a referrer whose level is \<open>2^53\<close>.
\<close>

definition store_empty_wallet :: RefRedis where
  "store_empty_wallet =
     snd (addNodeLite (snd (addNodeLite empty_store ''id0'' [] ''Nobody'' []))
            ''id1'' ''0xb2'' ''Bob'' [])"

definition store_deep :: RefRedis where
  "store_deep =
     snd (addNodeLite
            (snd (addNode empty_store
                    \<lparr> info_id = ''id1'', info_name = ''Alice'', info_wallet = ''0xa1'',
                      info_refer = ''0xa0'', info_refer_id = ''id0'',
                      info_lv = Num 9007199254740992 \<rparr>))
            ''id2'' ''0xb2'' ''Bob'' ''0xa1'')"

section \<open>TransactionProcessor: classifying one transaction\<close>

text \<open>
  A transaction as the ledger client returns it. The fields that no operation below
  reads (gas, status, time stamp) are left out. \<open>tx_to\<close> is absent for a contract
  creation, \<open>tx_data\<close> may be absent, \<open>tx_value\<close> is the BigInt of the value in wei.
\<close>

record transaction =
  tx_hash :: string
  tx_blockNumber :: int
  tx_from :: string
  tx_to :: "string option"
  tx_value :: int
  tx_data :: "string option"

record log_entry =
  log_address :: string
  log_topics :: "string list"
  log_data :: string

record receipt =
  rc_logs :: "log_entry list option"

record erc20_change =
  ch_type :: string
  ch_tokenAddress :: string
  ch_tokenSymbol :: string
  ch_tokenName :: string
  ch_from :: string
  ch_to :: string
  ch_value :: string
  ch_formattedValue :: string

record bnb_change =
  bnb_from :: string
  bnb_to :: string

datatype transaction_type =
    unknown | bnb_transfer | contract_call | erc20_transaction
  | erc20_transfer | erc20_transfer_from | erc20_approve

record parsed_transaction =
  p_hash :: string
  p_blockNumber :: int
  p_from :: string
  p_to :: "string option"
  p_isTransfer :: bool
  p_isERC20Transaction :: bool
  p_isEOA :: bool
  p_bnbChange :: bnb_change
  p_erc20Changes :: "erc20_change list"
  p_transactionType :: transaction_type
  p_methodSignature :: "string option"
  p_inputData :: string

text \<open>
  What the processor asks of the outside: \<open>ethers.isAddress\<close> (address syntax and
  checksum), the ledger call \<open>getCode\<close> (\<open>Inl\<close> a rejection), and the decoding of
  one Transfer log by \<open>parseTransferEvent\<close>, which checksums the two addresses, looks
  the token's metadata up on the ledger and returns \<open>null\<close> when any of this throws.
\<close>

record processor_env =
  isAddress :: "string \<Rightarrow> bool"
  getCode :: "string \<Rightarrow> string + string"
  parseTransferEvent :: "log_entry \<Rightarrow> erc20_change option"

definition TRANSFER_EVENT_SIGNATURE :: string where
  "TRANSFER_EVENT_SIGNATURE = ''0xddf252ad1be2c89b69c2b068fc378daa952ba7f163c4a11628f55a4df523b3ef''"

definition ERC20_METHODS :: "(string \<times> string) list" where
  "ERC20_METHODS =
     [(''transfer'', ''0xa9059cbb''), (''transferFrom'', ''0x23b872dd''), (''approve'', ''0x095ea7b3''),
      (''allowance'', ''0xdd62ed3e''), (''balanceOf'', ''0x70a08231''), (''totalSupply'', ''0x18160ddd''),
      (''name'', ''0x06fdde03''), (''symbol'', ''0x95d89b41''), (''decimals'', ''0x313ce567'')]"

definition isEOA :: "processor_env \<Rightarrow> string \<Rightarrow> bool" where
  "isEOA env address =
     (if \<not> isAddress env address then False
      else case getCode env address of Inl e \<Rightarrow> False | Inr code \<Rightarrow> code = ''0x'')"

text \<open>A string that may be absent, used as a condition: \<open>null\<close> and \<open>""\<close> are falsy.\<close>

definition truthy :: "string option \<Rightarrow> bool" where
  "truthy s = (case s of None \<Rightarrow> False | Some a \<Rightarrow> a \<noteq> [])"

definition analyzeBNBChange :: "transaction \<Rightarrow> parsed_transaction \<Rightarrow> parsed_transaction" where
  "analyzeBNBChange t result =
     (let v = tx_value t in
      if v > 0 then
        result\<lparr> p_isTransfer := True,
                p_transactionType := bnb_transfer,
                p_bnbChange :=
                  \<lparr> bnb_from = ''-'' @ formatEther v,
                    bnb_to = (if truthy (tx_to t) then formatEther v else bnb_to (p_bnbChange result)) \<rparr> \<rparr>
      else result)"

text \<open>\<open>transaction.data || '0x'\<close>: an absent or empty payload reads as \<open>0x\<close>.\<close>

definition data_or_0x :: "string option \<Rightarrow> string" where
  "data_or_0x d = (case d of None \<Rightarrow> ''0x'' | Some s \<Rightarrow> if s = [] then ''0x'' else s)"

definition analyzeTransactionType :: "transaction \<Rightarrow> parsed_transaction \<Rightarrow> parsed_transaction" where
  "analyzeTransactionType t result =
     (let inputData = data_or_0x (tx_data t) in
      if inputData = ''0x'' \<or> inputData = ''0x0'' then
        (if tx_value t > 0 then result\<lparr> p_transactionType := bnb_transfer, p_isTransfer := True \<rparr>
         else result\<lparr> p_transactionType := contract_call \<rparr>)
      else
        let methodSignature = take 10 inputData;
            result = result\<lparr> p_methodSignature := Some methodSignature \<rparr>
        in if methodSignature \<in> set (map snd ERC20_METHODS) then
             result\<lparr> p_isERC20Transaction := True,
                     p_transactionType :=
                       (if Some methodSignature = map_of ERC20_METHODS ''transfer'' then erc20_transfer
                        else if Some methodSignature = map_of ERC20_METHODS ''transferFrom'' then erc20_transfer_from
                        else if Some methodSignature = map_of ERC20_METHODS ''approve'' then erc20_approve
                        else erc20_transaction) \<rparr>
           else result\<lparr> p_transactionType := contract_call \<rparr>)"

fun analyzeERC20Events :: "processor_env \<Rightarrow> log_entry list \<Rightarrow> parsed_transaction \<Rightarrow> parsed_transaction" where
  "analyzeERC20Events env [] result = result"
| "analyzeERC20Events env (l # logs) result =
     analyzeERC20Events env logs
       (if (case log_topics l of [] \<Rightarrow> False | t0 # _ \<Rightarrow> t0 = TRANSFER_EVENT_SIGNATURE) then
          (case parseTransferEvent env l of
             None \<Rightarrow> result
           | Some erc20Change \<Rightarrow>
               let result = result\<lparr> p_erc20Changes := p_erc20Changes result @ [erc20Change],
                                     p_isERC20Transaction := True \<rparr>
               in if ch_type erc20Change = ''transfer'' then result\<lparr> p_isTransfer := True \<rparr> else result)
        else result)"

definition parseTransaction :: "processor_env \<Rightarrow> transaction \<Rightarrow> receipt option \<Rightarrow> parsed_transaction" where
  "parseTransaction env t rcpt =
     (let result = \<lparr> p_hash = tx_hash t, p_blockNumber = tx_blockNumber t, p_from = tx_from t,
                      p_to = tx_to t, p_isTransfer = False, p_isERC20Transaction = False,
                      p_isEOA = False, p_bnbChange = \<lparr> bnb_from = ''0'', bnb_to = ''0'' \<rparr>,
                      p_erc20Changes = [], p_transactionType = unknown, p_methodSignature = None,
                      p_inputData = data_or_0x (tx_data t) \<rparr>;
          result = (if truthy (tx_to t) then result\<lparr> p_isEOA := isEOA env (the (tx_to t)) \<rparr> else result);
          result = analyzeBNBChange t result;
          result = analyzeTransactionType t result
      in case rcpt of
           None \<Rightarrow> result
         | Some r \<Rightarrow> (case rc_logs r of None \<Rightarrow> result | Some logs \<Rightarrow> analyzeERC20Events env logs result))"

text \<open>
  \<open>processTransactions\<close> pairs the i-th transaction with the i-th receipt; a missing
  receipt is \<open>null\<close>.
\<close>

fun processTransactions :: "processor_env \<Rightarrow> transaction list \<Rightarrow> receipt option list \<Rightarrow> parsed_transaction list" where
  "processTransactions env [] receipts = []"
| "processTransactions env (t # ts) receipts =
     parseTransaction env t (case receipts of [] \<Rightarrow> None | r # _ \<Rightarrow> r)
       # processTransactions env ts (tl receipts)"

text \<open>The record that \<open>formatOutput\<close> hands to the monitor.\<close>

record formatted_erc20_change =
  f_type :: string
  f_tokenAddress :: string
  f_tokenSymbol :: string
  f_tokenName :: string
  f_from :: string
  f_to :: string
  f_value :: string
  f_formattedValue :: string
  f_formatted :: string

record formatted_bnb_change =
  fb_from :: string
  fb_to :: string
  fb_formatted_from :: string
  fb_formatted_to :: string

record formatted_transaction =
  o_hash :: string
  o_blockNumber :: int
  o_from :: string
  o_to :: "string option"
  o_transactionType :: transaction_type
  o_isTransfer :: bool
  o_isERC20Transaction :: bool
  o_isEOA :: bool
  o_bnbChange :: "formatted_bnb_change option"
  o_erc20Changes :: "formatted_erc20_change list option"

definition formatOutput :: "parsed_transaction \<Rightarrow> formatted_transaction" where
  "formatOutput p =
     \<lparr> o_hash = p_hash p, o_blockNumber = p_blockNumber p, o_from = p_from p, o_to = p_to p,
       o_transactionType = p_transactionType p, o_isTransfer = p_isTransfer p,
       o_isERC20Transaction = p_isERC20Transaction p, o_isEOA = p_isEOA p,
       o_bnbChange = Some
         \<lparr> fb_from = bnb_from (p_bnbChange p), fb_to = bnb_to (p_bnbChange p),
           fb_formatted_from = (if bnb_from (p_bnbChange p) \<noteq> [] then bnb_from (p_bnbChange p) @ '' BNB'' else ''0 BNB''),
           fb_formatted_to = (if bnb_to (p_bnbChange p) \<noteq> [] then bnb_to (p_bnbChange p) @ '' BNB'' else ''0 BNB'') \<rparr>,
       o_erc20Changes = Some (map (\<lambda>change.
         \<lparr> f_type = ch_type change, f_tokenAddress = ch_tokenAddress change,
           f_tokenSymbol = ch_tokenSymbol change, f_tokenName = ch_tokenName change,
           f_from = ch_from change, f_to = ch_to change, f_value = ch_value change,
           f_formattedValue = ch_formattedValue change,
           f_formatted = ch_formattedValue change @ '' '' @ ch_tokenSymbol change \<rparr>) (p_erc20Changes p)) \<rparr>"

text \<open>Transactions used as examples: one unit (10^18 wei) sent with an empty payload.\<close>

definition plain_transfer :: transaction where
  "plain_transfer =
     \<lparr> tx_hash = ''0x01'', tx_blockNumber = 1, tx_from = ''0xaaaa'', tx_to = Some ''0xbbbb'',
       tx_value = 1000000000000000000, tx_data = Some ''0x'' \<rparr>"

definition creation_with_value :: transaction where
  "creation_with_value = plain_transfer\<lparr> tx_to := None \<rparr>"

definition no_code_env :: processor_env where
  "no_code_env = \<lparr> isAddress = (\<lambda>_. True), getCode = (\<lambda>_. Inr ''0x''), parseTransferEvent = (\<lambda>_. None) \<rparr>"

section \<open>MessageTemplates.analyzeTransaction: activity of the tracked sender\<close>

record activity_entry =
  e_type :: string
  e_tokenAddress :: "string option"
  e_tokenSymbol :: "string option"
  e_formattedValue :: string
  e_from :: string
  e_to :: string

record analysis =
  hasActivity :: bool
  an_walletName :: string
  an_walletAddress :: string
  received :: "activity_entry list"
  sent :: "activity_entry list"

text \<open>\<open>addressNames.get(k) || 'Unknown'\<close>.\<close>

definition name_or_unknown :: "(string \<rightharpoonup> string) \<Rightarrow> string \<Rightarrow> string" where
  "name_or_unknown addressNames k =
     (case addressNames k of None \<Rightarrow> ''Unknown'' | Some n \<Rightarrow> if n = [] then ''Unknown'' else n)"

text \<open>The body of the loop over the token changes, for one change.\<close>

definition analyze_change :: "string \<Rightarrow> formatted_erc20_change \<Rightarrow> analysis \<Rightarrow> analysis" where
  "analyze_change txFrom change a =
     (let fromAddress = toLowerCase (f_from change);
          toAddress = toLowerCase (f_to change);
          txFromAddress = toLowerCase txFrom;
          entry = \<lparr> e_type = ''token'', e_tokenAddress = Some (f_tokenAddress change),
                    e_tokenSymbol = Some (f_tokenSymbol change),
                    e_formattedValue = f_formattedValue change,
                    e_from = fromAddress, e_to = toAddress \<rparr>;
          a = (if toAddress = txFromAddress then a\<lparr> received := received a @ [entry] \<rparr> else a)
      in if fromAddress = txFromAddress then a\<lparr> sent := sent a @ [entry] \<rparr> else a)"

fun analyze_changes :: "string \<Rightarrow> formatted_erc20_change list \<Rightarrow> analysis \<Rightarrow> analysis" where
  "analyze_changes txFrom [] a = a"
| "analyze_changes txFrom (change # changes) a =
     analyze_changes txFrom changes (analyze_change txFrom change a)"

text \<open>
  \<open>analyzeTransaction\<close> throws a TypeError when the native change is non-zero and the
  transaction has no recipient (\<open>tx.to.toLowerCase()\<close> on \<open>null\<close>).
\<close>

definition analyzeTransaction ::
  "formatted_transaction \<Rightarrow> string set \<Rightarrow> (string \<rightharpoonup> string) \<Rightarrow> error + analysis" where
  "analyzeTransaction tx monitoredAddresses addressNames =
     (let a0 = \<lparr> hasActivity = False,
                  an_walletName = name_or_unknown addressNames (toLowerCase (o_from tx)),
                  an_walletAddress = o_from tx, received = [], sent = [] \<rparr>;
          bnbStep =
            (case o_bnbChange tx of
               None \<Rightarrow> Inr a0
             | Some bnb \<Rightarrow>
                 if fb_from bnb \<noteq> ''0'' \<or> fb_to bnb \<noteq> ''0'' then
                   (let fromAddress = toLowerCase (o_from tx) in
                    case o_to tx of
                      None \<Rightarrow> Inl (TypeError ''Cannot read properties of null (reading 'toLowerCase')'')
                    | Some to \<Rightarrow>
                        let toAddress = toLowerCase to in
                        if fromAddress \<in> monitoredAddresses then
                          (let a = a0\<lparr> hasActivity := True \<rparr> in
                           if fb_from bnb \<noteq> ''0'' then
                             Inr (a\<lparr> sent := sent a @
                                    [\<lparr> e_type = ''bnb'', e_tokenAddress = None, e_tokenSymbol = None,
                                       e_formattedValue = fb_from bnb, e_from = fromAddress,
                                       e_to = toAddress \<rparr>] \<rparr>)
                           else Inr a)
                        else Inr a0)
                 else Inr a0)
      in case bnbStep of
           Inl e \<Rightarrow> Inl e
         | Inr a \<Rightarrow>
             (case o_erc20Changes tx of
                None \<Rightarrow> Inr a
              | Some changes \<Rightarrow>
                  if length changes > 0 then
                    (if toLowerCase (o_from tx) \<in> monitoredAddresses then
                       Inr (analyze_changes (o_from tx) changes (a\<lparr> hasActivity := True \<rparr>))
                     else Inr a)
                  else Inr a))"

text \<open>
  An example: the tracked account \<open>0xaaaa\<close> calls a contract, and the receipt shows one
  token transfer between two other accounts.
\<close>

definition third_party_transfer :: formatted_transaction where
  "third_party_transfer =
     \<lparr> o_hash = ''0x02'', o_blockNumber = 2, o_from = ''0xaaaa'', o_to = Some ''0xeeee'',
       o_transactionType = contract_call, o_isTransfer = True, o_isERC20Transaction = True,
       o_isEOA = False,
       o_bnbChange = Some \<lparr> fb_from = ''0'', fb_to = ''0'', fb_formatted_from = ''0 BNB'',
                            fb_formatted_to = ''0 BNB'' \<rparr>,
       o_erc20Changes = Some
         [\<lparr> f_type = ''transfer'', f_tokenAddress = ''0x55d3'', f_tokenSymbol = ''USDT'',
            f_tokenName = ''Tether'', f_from = ''0xcccc'', f_to = ''0xdddd'', f_value = ''5'',
            f_formattedValue = ''0.000000000000000005'', f_formatted = ''0.000000000000000005 USDT'' \<rparr>] \<rparr>"

definition own_transfer :: formatted_transaction where
  "own_transfer =
     third_party_transfer\<lparr> o_erc20Changes := Some
         [\<lparr> f_type = ''transfer'', f_tokenAddress = ''0x55d3'', f_tokenSymbol = ''USDT'',
            f_tokenName = ''Tether'', f_from = ''0xAAAA'', f_to = ''0xdddd'', f_value = ''5'',
            f_formattedValue = ''0.000000000000000005'', f_formatted = ''0.000000000000000005 USDT'' \<rparr>] \<rparr>"

section \<open>TgBot: the delivery queue\<close>

text \<open>
  A queued message. \<open>queueMessage\<close> stores no \<open>retryCount\<close>; a re-queued message
  carries one. The free-form \<open>options\<close> object, which the program always leaves
  empty, is left out.
\<close>

record message_data =
  m_chatId :: string
  m_html :: string
  m_thread_id :: "string option"
  m_disable_web_page_preview :: bool
  m_retryCount :: "nat option"

record send_extra =
  x_parse_mode :: string
  x_disable_web_page_preview :: bool
  x_message_thread_id :: "string option"



text \<open>
  The bot's fields, and what it does to the outside: the calls made to the sink and
  the lines written with \<open>console.warn\<close> and \<open>console.error\<close>, in order. The
  lines, Chinese in the source, are given in English.

  A tick of the dispatcher is one step here, which contains the settling of the
  sends it started. The flag \<open>isProcessing\<close>, set for as long as those sends are
  pending, is therefore \<open>False\<close> between two steps, and \<open>busyUntil\<close> is the time at
  which it was cleared: a tick before that time finds the flag set in the program.
\<close>

record TgBot =
  messageQueue :: "message_data list"
  isProcessing :: bool
  busyUntil :: nat
  rateLimitUntil :: nat
  retryCount :: nat
  maxRetries :: nat
  batchSize :: nat
  sendCalls :: "(string \<times> string \<times> send_extra) list"
  console_warn :: "string list"
  console_error :: "string list"

definition new_TgBot :: TgBot where
  "new_TgBot =
     \<lparr> messageQueue = [], isProcessing = False, busyUntil = 0, rateLimitUntil = 0, retryCount = 0,
       maxRetries = 3, batchSize = 5, sendCalls = [], console_warn = [], console_error = [] \<rparr>"






definition extra_of :: "message_data \<Rightarrow> send_extra" where
  "extra_of m =
     \<lparr> x_parse_mode = ''HTML'', x_disable_web_page_preview = m_disable_web_page_preview m,
       x_message_thread_id = (if truthy (m_thread_id m) then m_thread_id m else None) \<rparr>"

definition sink_call :: "message_data \<Rightarrow> string \<times> string \<times> send_extra" where
  "sink_call m = (m_chatId m, m_html m, extra_of m)"



text \<open>The object that \<open>queueMessage\<close> pushes, with the default for the preview flag.\<close>

definition queued_message :: "string \<Rightarrow> string \<Rightarrow> string option \<Rightarrow> message_data" where
  "queued_message chatId html thread_id =
     \<lparr> m_chatId = chatId, m_html = html, m_thread_id = thread_id,
       m_disable_web_page_preview = True, m_retryCount = None \<rparr>"

definition queueMessage :: "TgBot \<Rightarrow> string \<Rightarrow> string \<Rightarrow> string option \<Rightarrow> TgBot" where
  "queueMessage b chatId html thread_id =
     b\<lparr> messageQueue := messageQueue b @ [queued_message chatId html thread_id] \<rparr>"

definition sendHtml :: "TgBot \<Rightarrow> string \<Rightarrow> string \<Rightarrow> string option \<Rightarrow> TgBot" where
  "sendHtml b chatId html thread_id = queueMessage b chatId html thread_id"




text \<open>
  The life of one message \<open>m\<close> that is alone in the queue: after \<open>k\<close> throttled
  attempts it waits in the queue with attempt counter \<open>k\<close>, and nothing has been
  reported; once dropped, the queue is empty, the sink has been called \<open>maxRetries + 1\<close>
  times and one line has been written with \<open>console.error\<close>.
\<close>

definition requeued :: "message_data \<Rightarrow> nat \<Rightarrow> message_data" where
  "requeued m k = (if k = 0 then m else m\<lparr> m_retryCount := Some k \<rparr>)"












section \<open>BlockScanner: scanning a range of blocks\<close>

text \<open>
  A block as the ledger returns it with its transactions prefetched; the time stamp
  is absent when it is undefined or not a number.
\<close>

record block =
  blk_timestamp :: "int option"
  blk_prefetchedTransactions :: "transaction list option"

text \<open>
  The scanner with its ledger client: \<open>getBlock\<close> and \<open>getTransactionReceipt\<close>
  reject (\<open>Inl\<close>) or resolve, possibly with \<open>null\<close>.
\<close>

record BlockScanner =
  sc_env :: processor_env
  sc_getBlock :: "int \<Rightarrow> string + block option"
  sc_getTransactionReceipt :: "string \<Rightarrow> string + receipt option"
  watchedAddresses :: "string set"
  sc_minValue :: int
  sc_maxValue :: int

definition addWatchedAddress :: "BlockScanner \<Rightarrow> string \<Rightarrow> BlockScanner" where
  "addWatchedAddress sc address =
     (if isAddress (sc_env sc) address
      then sc\<lparr> watchedAddresses := insert (toLowerCase address) (watchedAddresses sc) \<rparr>
      else sc)"

definition isTransactionRelevant :: "BlockScanner \<Rightarrow> transaction \<Rightarrow> bool" where
  "isTransactionRelevant sc t =
     (toLowerCase (tx_from t) \<in> watchedAddresses sc \<or>
      (case tx_to t of None \<Rightarrow> False | Some a \<Rightarrow> toLowerCase a \<in> watchedAddresses sc))"

definition filterTransaction :: "BlockScanner \<Rightarrow> transaction \<Rightarrow> bool" where
  "filterTransaction sc t =
     (if tx_value t < sc_minValue sc \<or> tx_value t > sc_maxValue sc then False
      else if \<not> isTransactionRelevant sc t then False
      else True)"

definition getBlockTransactions :: "BlockScanner \<Rightarrow> int \<Rightarrow> transaction list" where
  "getBlockTransactions sc blockNumber =
     (case sc_getBlock sc blockNumber of
        Inl e \<Rightarrow> []
      | Inr None \<Rightarrow> []
      | Inr (Some b) \<Rightarrow>
          (case blk_prefetchedTransactions b of
             None \<Rightarrow> []
           | Some txs \<Rightarrow>
               (case blk_timestamp b of
                  None \<Rightarrow> []
                | Some ts \<Rightarrow> if ts = 0 then [] else txs)))"

definition getTransactionReceipt :: "BlockScanner \<Rightarrow> string \<Rightarrow> receipt option" where
  "getTransactionReceipt sc h =
     (case sc_getTransactionReceipt sc h of Inl e \<Rightarrow> None | Inr r \<Rightarrow> r)"

text \<open>
  \<open>processBlock\<close>: the filtered transactions whose receipt could be fetched are
  classified and formatted. Its own \<open>try\<close>/\<open>catch\<close> turns any exception into the
  empty result; no step of the model throws.
\<close>

definition processBlock :: "BlockScanner \<Rightarrow> int \<Rightarrow> formatted_transaction list" where
  "processBlock sc blockNumber =
     (let transactions = getBlockTransactions sc blockNumber;
          filteredTxs = filter (filterTransaction sc) transactions
      in if length filteredTxs = 0 then []
         else
           let receipts = map (\<lambda>t. getTransactionReceipt sc (tx_hash t)) filteredTxs;
               valid = filter (\<lambda>(t, r). r \<noteq> None) (zip filteredTxs receipts);
               validTransactions = map fst valid;
               validReceipts = map snd valid
           in if length validTransactions = 0 then []
              else map formatOutput
                     (processTransactions (sc_env sc) validTransactions validReceipts))"

text \<open>
  The loop of \<open>scanBlockRangeParallel\<close> over the waves: \<open>i\<close> is the index of the
  wave's first block. Every promise of a wave is fulfilled, since \<open>processBlock\<close>
  never rejects; a non-empty value is appended to the results. The loop is entered
  only with a positive \<open>concurrency\<close>.
\<close>

definition collect_wave ::
  "formatted_transaction list \<Rightarrow> formatted_transaction list list \<Rightarrow> formatted_transaction list" where
  "collect_wave results batchResults =
     foldl (\<lambda>res v. if length v > 0 then res @ v else res) results batchResults"

function scan_waves ::
  "BlockScanner \<Rightarrow> int list \<Rightarrow> nat \<Rightarrow> nat \<Rightarrow> formatted_transaction list \<Rightarrow> formatted_transaction list" where
  "scan_waves sc blockNumbers concurrency i results =
     (if i < length blockNumbers \<and> 0 < concurrency then
        (let batch = take concurrency (drop i blockNumbers);
             batchResults = map (processBlock sc) batch
         in scan_waves sc blockNumbers concurrency (i + concurrency)
              (collect_wave results batchResults))
      else results)"
  by pat_completeness auto
termination
  by (relation "measure (\<lambda>(sc, blockNumbers, concurrency, i, results). length blockNumbers - i)") auto

declare scan_waves.simps [simp del]

definition block_numbers :: "int \<Rightarrow> int \<Rightarrow> int list" where
  "block_numbers startBlock endBlock =
     (let totalBlocks = endBlock - startBlock + 1
      in map (\<lambda>i. startBlock + int i) [0..<nat totalBlocks])"

definition scanBlockRangeParallel :: "BlockScanner \<Rightarrow> int \<Rightarrow> int \<Rightarrow> formatted_transaction list" where
  "scanBlockRangeParallel sc startBlock endBlock =
     (let totalBlocks = endBlock - startBlock + 1;
          blockNumbers = block_numbers startBlock endBlock;
          concurrency = nat (min 10 totalBlocks)
      in scan_waves sc blockNumbers concurrency 0 [])"

text \<open>
  \<open>getLatestBlockNumber\<close>, given the outcome of the ledger call: a failure reads as
  block 0.
\<close>

definition getLatestBlockNumber :: "string + int \<Rightarrow> int" where
  "getLatestBlockNumber outcome = (case outcome of Inl e \<Rightarrow> 0 | Inr n \<Rightarrow> n)"

text \<open>
  A scanner watching \<open>0xaaaa\<close> on a ledger where every block holds one transfer of
  that account and the fetch of block 3 fails.
\<close>

definition flaky_scanner :: BlockScanner where
  "flaky_scanner =
     \<lparr> sc_env = no_code_env,
       sc_getBlock = (\<lambda>n. if n = 3 then Inl ''timeout''
                           else Inr (Some \<lparr> blk_timestamp = Some 1700000000,
                                           blk_prefetchedTransactions =
                                             Some [plain_transfer\<lparr> tx_blockNumber := n \<rparr>] \<rparr>)),
       sc_getTransactionReceipt = (\<lambda>h. Inr (Some \<lparr> rc_logs = Some [] \<rparr>)),
       watchedAddresses = {''0xaaaa''},
       sc_minValue = 0,
       sc_maxValue = 10000000000000000000000 \<rparr>"

text \<open>
  A ledger with several transactions in a block, for a scanner watching \<open>0xaaaa\<close>.
  The fetch of blocks 3 and 11 is rejected, block 5 resolves to \<open>null\<close> and block 7
  has no time stamp. Every other block \<open>n\<close> holds four transactions: \<open>an\<close> sent by
  the watched account, \<open>bn\<close> between two other accounts, \<open>cn\<close> received by the watched
  account but without a receipt yet, and \<open>dn\<close> sent by the watched account; the
  fetch of the receipt of \<open>d2\<close> is rejected.
\<close>

definition busy_block :: "int \<Rightarrow> block" where
  "busy_block n =
     \<lparr> blk_timestamp = (if n = 7 then None else Some 1700000000),
       blk_prefetchedTransactions = Some
         [plain_transfer\<lparr> tx_hash := ''a'' @ toString (Num n), tx_blockNumber := n \<rparr>,
          plain_transfer\<lparr> tx_hash := ''b'' @ toString (Num n), tx_blockNumber := n,
                           tx_from := ''0xcccc'', tx_to := Some ''0xdddd'' \<rparr>,
          plain_transfer\<lparr> tx_hash := ''c'' @ toString (Num n), tx_blockNumber := n,
                           tx_from := ''0xeeee'', tx_to := Some ''0xAAAA'' \<rparr>,
          plain_transfer\<lparr> tx_hash := ''d'' @ toString (Num n), tx_blockNumber := n,
                           tx_to := Some ''0xffff'' \<rparr>] \<rparr>"

definition busy_scanner :: BlockScanner where
  "busy_scanner =
     \<lparr> sc_env = no_code_env,
       sc_getBlock = (\<lambda>n. if n = 3 \<or> n = 11 then Inl ''timeout''
                           else if n = 5 then Inr None
                           else Inr (Some (busy_block n))),
       sc_getTransactionReceipt = (\<lambda>h. if h = ''d2'' then Inl ''timeout''
                                        else if take 1 h = ''c'' then Inr None
                                        else Inr (Some \<lparr> rc_logs = Some [] \<rparr>)),
       watchedAddresses = {''0xaaaa''},
       sc_minValue = 0,
       sc_maxValue = 10000000000000000000000 \<rparr>"

section \<open>WalletMonitor: the monitor loop and the detection of new wallets\<close>

record token_config =
  tk_token :: string
  tk_symbol :: string
  tk_decimals :: nat
  tk_minValue :: int

record monitor_config =
  cfg_chatId :: string
  cfg_threadId :: "string option"
  cfg_batchSize :: int
  cfg_minValue :: int
  enableNewWalletDetection :: bool

text \<open>
  The batch size that the constructor computes from the option or the environment
  variable, \<open>parseInt(setting) || 5\<close>: an absent, unreadable or zero setting gives 5,
  any other integer is taken as it is.
\<close>

definition constructor_batchSize :: "string option \<Rightarrow> int" where
  "constructor_batchSize setting =
     (case (case setting of None \<Rightarrow> NaN | Some s \<Rightarrow> parseInt s) of
        NaN \<Rightarrow> 5
      | Num n \<Rightarrow> if n = 0 then 5 else n)"

text \<open>The two base tokens that the constructor configures, with their minimum amounts.\<close>

definition baseToken :: "token_config list" where
  "baseToken =
     [\<lparr> tk_token = ''0x55d398326f99059ff775485246999027b3197955'', tk_symbol = ''USDT'',
        tk_decimals = 18, tk_minValue = 1000 \<rparr>,
      \<lparr> tk_token = ''0xbb4cdb9cbd36b01bd1cbaebf2de08d9173bc095c'', tk_symbol = ''WBNB'',
        tk_decimals = 18, tk_minValue = 1 \<rparr>]"

definition baseTokenMap :: "string \<rightharpoonup> token_config" where
  "baseTokenMap = map_of (map (\<lambda>item. (tk_token item, item)) (rev baseToken))"

record monitor_stats =
  processedBlocks :: int
  foundTransactions :: int
  sentNotifications :: int
  newWalletsAdded :: int

text \<open>
  The order of the steps of a tick, kept beside the state: the range scanned, each
  transaction processed, the write of the checkpoint.
\<close>

datatype journal_event = Scanned int int | Processed string | CheckpointWritten int

text \<open>
  What the monitor asks of the outside: the reputation lookup \<open>getIsCexDict\<close>
  (\<open>Inl\<close> when it throws), the language's comparison \<open>s >= n\<close> of a decimal string
  with a number (a floating-point comparison), and the two message templates.
\<close>

record monitor_env =
  getIsCexDict :: "string \<Rightarrow> string + bool"
  string_ge_number :: "string \<Rightarrow> int \<Rightarrow> bool"
  tokenTransfer :: "string \<Rightarrow> analysis \<Rightarrow> string"
  newWallet :: "string \<Rightarrow> string \<Rightarrow> string \<Rightarrow> string"

record WalletMonitor =
  config :: monitor_config
  redis :: RefRedis
  bot :: TgBot
  scanner :: BlockScanner
  isRunning :: bool
  lastProcessedBlock :: int
  stats :: monitor_stats
  monitoredAddresses :: "string set"
  addressNames :: "string \<rightharpoonup> string"
  journal :: "journal_event list"

text \<open>
  \<open>addNewWallet\<close>. The call of \<open>redis.addNodeLite\<close> is commented out in the source,
  under the comment that announces the insertion into the database; the local caches
  are updated, the notification is queued and the counters are incremented. An
  exception (of the reputation lookup) is caught and logged.
\<close>

definition addNewWallet :: "monitor_env \<Rightarrow> WalletMonitor \<Rightarrow> string \<Rightarrow> string \<Rightarrow> WalletMonitor" where
  "addNewWallet env m walletAddress fromAddress =
     (let addressExists = existsWallet (redis m) walletAddress in
      if \<not> addressExists then
        (let fromName = name_or_unknown (addressNames m) fromAddress in
         case getIsCexDict env walletAddress of
           Inl e \<Rightarrow> m
         | Inr isCex \<Rightarrow>
             if isCex then m
             else
               let message = newWallet env walletAddress fromName fromAddress
               in m\<lparr> monitoredAddresses := insert walletAddress (monitoredAddresses m),
                      addressNames := (addressNames m)(toLowerCase walletAddress \<mapsto> fromName),
                      scanner := addWatchedAddress (scanner m) walletAddress,
                      bot := sendHtml (bot m) (cfg_chatId (config m)) message (cfg_threadId (config m)),
                      stats := (stats m)\<lparr> sentNotifications := sentNotifications (stats m) + 1,
                                           newWalletsAdded := newWalletsAdded (stats m) + 1 \<rparr> \<rparr>)
      else m)"

text \<open>
  \<open>addWallet\<close>, the manual enrollment, with the identifier that \<open>generateId\<close>
  draws: an empty address or name and an address that the store already holds are
  refused with \<open>success: false\<close>; otherwise the node is inserted with
  \<open>addNodeLite\<close> and no referrer, the local caches are updated and the stored node
  is returned. An exception is caught and reported in the result.
\<close>

record wallet_result =
  res_success :: bool
  res_message :: string
  res_nodeInfo :: "node_info option"

definition addWallet ::
  "WalletMonitor \<Rightarrow> string \<Rightarrow> string \<Rightarrow> string \<Rightarrow> wallet_result \<times> WalletMonitor" where
  "addWallet m newId wallet name =
     (if wallet = [] \<or> name = []
      then (\<lparr> res_success = False, res_message = ''wallet address and name must not be empty'',
              res_nodeInfo = None \<rparr>, m)
      else if existsWallet (redis m) wallet
      then (\<lparr> res_success = False, res_message = ''address exists: '' @ wallet,
              res_nodeInfo = None \<rparr>, m)
      else
        (case addNodeLite (redis m) newId wallet name [] of
           (Inl e, r) \<Rightarrow>
             (\<lparr> res_success = False, res_message = ''adding failed'', res_nodeInfo = None \<rparr>,
              m\<lparr> redis := r \<rparr>)
         | (Inr u, r) \<Rightarrow>
             (\<lparr> res_success = True, res_message = ''wallet added: '' @ name,
                res_nodeInfo = getNodeInfo r wallet \<rparr>,
              m\<lparr> redis := r,
                 monitoredAddresses := insert wallet (monitoredAddresses m),
                 addressNames := (addressNames m)(toLowerCase wallet \<mapsto> name),
                 scanner := addWatchedAddress (scanner m) wallet \<rparr>)))"

text \<open>
  \<open>checkNewWalletFromBNB\<close>. The recipient amount, a decimal string, is compared with
  the configured minimum, a BigInt of wei. Reading \<open>tx.to\<close> or \<open>tx.bnbChange\<close> when
  absent throws a TypeError.
\<close>

definition checkNewWalletFromBNB ::
  "monitor_env \<Rightarrow> WalletMonitor \<Rightarrow> formatted_transaction \<Rightarrow> error + WalletMonitor" where
  "checkNewWalletFromBNB env m tx =
     (case o_to tx of
        None \<Rightarrow> Inl (TypeError ''Cannot read properties of null (reading 'toLowerCase')'')
      | Some to \<Rightarrow>
          let toAddress = toLowerCase to in
          if toAddress \<notin> monitoredAddresses m then
            (let hasBNBTransfer =
                   (case o_bnbChange tx of None \<Rightarrow> False
                    | Some c \<Rightarrow> fb_from c \<noteq> ''0'' \<or> fb_to c \<noteq> ''0'');
                 hasNoERC20Transfer =
                   (case o_erc20Changes tx of None \<Rightarrow> True | Some cs \<Rightarrow> length cs = 0)
             in case o_bnbChange tx of
                  None \<Rightarrow> Inl (TypeError ''Cannot read properties of undefined (reading 'to')'')
                | Some c \<Rightarrow>
                    let minValue = string_ge_bigint (fb_to c) (cfg_minValue (config m)) in
                    if hasBNBTransfer \<and> hasNoERC20Transfer \<and> minValue then
                      (if isEOA (sc_env (scanner m)) toAddress
                       then Inr (addNewWallet env m toAddress (toLowerCase (o_from tx)))
                       else Inr m)
                    else Inr m)
          else Inr m)"

definition hasOnlyOneTokenType :: "formatted_erc20_change list option \<Rightarrow> bool" where
  "hasOnlyOneTokenType erc20Changes =
     (case erc20Changes of
        None \<Rightarrow> False
      | Some cs \<Rightarrow>
          if length cs = 0 then False
          else length (remdups (map (\<lambda>c. toLowerCase (f_tokenAddress c)) cs)) = 1)"

text \<open>The body of the loop of \<open>checkNewWalletFromERC20\<close>, for one token change.\<close>

definition check_change :: "monitor_env \<Rightarrow> WalletMonitor \<Rightarrow> formatted_erc20_change \<Rightarrow> WalletMonitor" where
  "check_change env m change =
     (let fromAddress = toLowerCase (f_from change);
          toAddress = toLowerCase (f_to change);
          tokenAddress = toLowerCase (f_tokenAddress change);
          isMinValue =
            (case baseTokenMap tokenAddress of
               None \<Rightarrow> False
             | Some item \<Rightarrow>
                 tk_minValue item \<noteq> 0 \<and>
                 string_ge_number env (f_formattedValue change) (tk_minValue item))
      in if isMinValue \<and> fromAddress \<in> monitoredAddresses m \<and> toAddress \<notin> monitoredAddresses m
         then (if isEOA (sc_env (scanner m)) toAddress then addNewWallet env m toAddress fromAddress
               else m)
         else m)"

definition checkNewWalletFromERC20 ::
  "monitor_env \<Rightarrow> WalletMonitor \<Rightarrow> formatted_transaction \<Rightarrow> WalletMonitor" where
  "checkNewWalletFromERC20 env m tx =
     (case o_erc20Changes tx of
        None \<Rightarrow> m
      | Some cs \<Rightarrow>
          if length cs > 0 then
            (let hasNoBNBTransfer =
                   (case o_bnbChange tx of None \<Rightarrow> True
                    | Some c \<Rightarrow> fb_from c = ''0'' \<and> fb_to c = ''0'')
             in if hasNoBNBTransfer \<and> hasOnlyOneTokenType (o_erc20Changes tx)
                then foldl (check_change env) m cs
                else m)
          else m)"

text \<open>\<open>checkNewWallet\<close> catches and logs what the two checks throw.\<close>

definition checkNewWallet :: "monitor_env \<Rightarrow> WalletMonitor \<Rightarrow> formatted_transaction \<Rightarrow> WalletMonitor" where
  "checkNewWallet env m tx =
     (case checkNewWalletFromBNB env m tx of
        Inl e \<Rightarrow> m
      | Inr m1 \<Rightarrow> checkNewWalletFromERC20 env m1 tx)"

definition sendTransactionNotification ::
  "monitor_env \<Rightarrow> WalletMonitor \<Rightarrow> formatted_transaction \<Rightarrow> analysis \<Rightarrow> WalletMonitor" where
  "sendTransactionNotification env m tx a =
     (let message = tokenTransfer env (o_hash tx) a
      in m\<lparr> bot := sendHtml (bot m) (cfg_chatId (config m)) message (cfg_threadId (config m)),
             stats := (stats m)\<lparr> sentNotifications := sentNotifications (stats m) + 1 \<rparr> \<rparr>)"

text \<open>
  The body of the loop of \<open>WalletMonitor.processTransactions\<close>, for one transaction;
  what the analysis throws is caught and logged.
\<close>

definition process_transaction :: "monitor_env \<Rightarrow> WalletMonitor \<Rightarrow> formatted_transaction \<Rightarrow> WalletMonitor" where
  "process_transaction env m tx =
     (let m1 =
        (case analyzeTransaction tx (monitoredAddresses m) (addressNames m) of
           Inl e \<Rightarrow> m
         | Inr a \<Rightarrow>
             if hasActivity a then
               (let m2 = sendTransactionNotification env m tx a
                in if enableNewWalletDetection (config m2) then checkNewWallet env m2 tx else m2)
             else m)
      in m1\<lparr> journal := journal m1 @ [Processed (o_hash tx)] \<rparr>)"

definition monitor_processTransactions ::
  "monitor_env \<Rightarrow> WalletMonitor \<Rightarrow> formatted_transaction list \<Rightarrow> WalletMonitor" where
  "monitor_processTransactions env m transactions = foldl (process_transaction env) m transactions"

text \<open>
  \<open>scanNewBlocks\<close>, one tick of the loop; \<open>currentBlock\<close> is what
  \<open>getLatestBlockNumber\<close> returned.
\<close>

definition scanNewBlocks :: "monitor_env \<Rightarrow> WalletMonitor \<Rightarrow> int \<Rightarrow> WalletMonitor" where
  "scanNewBlocks env m currentBlock =
     (if currentBlock \<le> lastProcessedBlock m then m
      else
        let startBlock = lastProcessedBlock m + 1;
            totalBlocksToProcess = currentBlock - lastProcessedBlock m;
            batchSize = (if totalBlocksToProcess > 20 then min 20 totalBlocksToProcess
                         else cfg_batchSize (config m));
            endBlock = min currentBlock (startBlock + batchSize - 1);
            results = scanBlockRangeParallel (scanner m) startBlock endBlock;
            m = m\<lparr> journal := journal m @ [Scanned startBlock endBlock] \<rparr>;
            m = (if length results > 0 then monitor_processTransactions env m results else m)
        in m\<lparr> lastProcessedBlock := endBlock,
               journal := journal m @ [CheckpointWritten endBlock],
               stats := (stats m)\<lparr> processedBlocks := processedBlocks (stats m) + (endBlock - startBlock + 1),
                                    foundTransactions := foundTransactions (stats m) + int (length results) \<rparr> \<rparr>)"

text \<open>
  \<open>startMonitoringLoop\<close> over the ticks for which the outcomes \<open>heads\<close> of the
  ledger's block-number call are given; the loop stops when \<open>isRunning\<close> is false.
\<close>

fun startMonitoringLoop :: "monitor_env \<Rightarrow> WalletMonitor \<Rightarrow> (string + int) list \<Rightarrow> WalletMonitor" where
  "startMonitoringLoop env m [] = m"
| "startMonitoringLoop env m (head # heads) =
     (if isRunning m
      then startMonitoringLoop env (scanNewBlocks env m (getLatestBlockNumber head)) heads
      else m)"

text \<open>
  The exact comparison of a decimal string \<open>whole.fraction\<close> with an integer: it
  agrees with the language's floating-point comparison except for strings within
  half a unit in the last place below the integer.
\<close>

definition decimal_ge :: "string \<Rightarrow> int \<Rightarrow> bool" where
  "decimal_ge s n = (n \<le> int (dec_value (takeWhile is_digit s)))"

text \<open>
  A monitor for the examples: \<open>0xaaaa\<close> (Alice) is tracked and stored, new wallets
  are detected, the minimum native value is 0, and no address is exchange-custodied.
\<close>

definition example_env :: monitor_env where
  "example_env =
     \<lparr> getIsCexDict = (\<lambda>_. Inr False), string_ge_number = decimal_ge,
       tokenTransfer = (\<lambda>h a. ''transfer '' @ h),
       newWallet = (\<lambda>w n r. ''new wallet '' @ w) \<rparr>"

definition example_monitor :: WalletMonitor where
  "example_monitor =
     \<lparr> config = \<lparr> cfg_chatId = ''-100'', cfg_threadId = None,
                  cfg_batchSize = constructor_batchSize None, cfg_minValue = 0,
                  enableNewWalletDetection = True \<rparr>,
       redis = snd (addNodeLite empty_store ''id1'' ''0xaaaa'' ''Alice'' []),
       bot = new_TgBot,
       scanner = flaky_scanner,
       isRunning = True,
       lastProcessedBlock = 100,
       stats = \<lparr> processedBlocks = 0, foundTransactions = 0, sentNotifications = 0, newWalletsAdded = 0 \<rparr>,
       monitoredAddresses = {''0xaaaa''},
       addressNames = [''0xaaaa'' \<mapsto> ''Alice''],
       journal = [] \<rparr>"

text \<open>
  The transaction of the specification's scenario as the scanner delivers it: the
  tracked \<open>0xaaaa\<close> sends 1000 USDT to the untracked \<open>0xcccc\<close>, which has no code.
\<close>

definition usdt_transfer :: formatted_transaction where
  "usdt_transfer =
     \<lparr> o_hash = ''0x03'', o_blockNumber = 101, o_from = ''0xaaaa'',
       o_to = Some ''0x55d398326f99059ff775485246999027b3197955'',
       o_transactionType = erc20_transfer, o_isTransfer = True, o_isERC20Transaction = True,
       o_isEOA = False,
       o_bnbChange = Some \<lparr> fb_from = ''0'', fb_to = ''0'', fb_formatted_from = ''0 BNB'',
                            fb_formatted_to = ''0 BNB'' \<rparr>,
       o_erc20Changes = Some
         [\<lparr> f_type = ''transfer'', f_tokenAddress = ''0x55d398326f99059ff775485246999027b3197955'',
            f_tokenSymbol = ''USDT'', f_tokenName = ''Tether USD'', f_from = ''0xaaaa'',
            f_to = ''0xcccc'', f_value = ''1000000000000000000000'',
            f_formattedValue = ''1000.0'', f_formatted = ''1000.0 USDT'' \<rparr>] \<rparr>"

text \<open>The plain transfer of one native unit to the untracked \<open>0xbbbb\<close>, as the scanner delivers it.\<close>

definition native_transfer_tx :: formatted_transaction where
  "native_transfer_tx = formatOutput (parseTransaction no_code_env plain_transfer (Some \<lparr> rc_logs = Some [] \<rparr>))"

text \<open>The example monitor constructed with the batch size setting \<open>-3\<close>.\<close>

definition negative_batch_monitor :: WalletMonitor where
  "negative_batch_monitor =
     example_monitor\<lparr> config := (config example_monitor)\<lparr> cfg_batchSize := constructor_batchSize (Some ''-3'') \<rparr> \<rparr>"

text \<open>
  What the notification and the detection of new wallets leave as it was: the
  checkpoint, the configuration, the journal, the store and the running flag.
\<close>

definition keeps_checkpoint :: "WalletMonitor \<Rightarrow> WalletMonitor \<Rightarrow> bool" where
  "keeps_checkpoint m m' =
     (lastProcessedBlock m' = lastProcessedBlock m \<and> config m' = config m \<and>
      journal m' = journal m \<and> redis m' = redis m \<and> isRunning m' = isRunning m)"

section \<open>Facts about the string helpers\<close>

lemma lower_char_idem: "lower_char (lower_char c) = lower_char c"
  by (simp add: lower_char_def)

lemma toLowerCase_idem: "toLowerCase (toLowerCase s) = toLowerCase s"
  by (simp add: toLowerCase_def lower_char_idem)

lemma nodeKey_lower: "nodeKey r (toLowerCase w) = nodeKey r w"
  by (simp add: nodeKey_def toLowerCase_idem)

lemma lt10_cases: "d < 10 \<Longrightarrow> d \<in> {0, 1, 2, 3, 4, 5, 6, 7, 8, 9::nat}"
  by auto

lemma is_digit_digit_char: "d < 10 \<Longrightarrow> is_digit (digit_char d)"
  by (drule lt10_cases) (auto simp: is_digit_def digit_char_def Let_def)

lemma digit_val_digit_char: "d < 10 \<Longrightarrow> digit_val (digit_char d) = d"
  by (drule lt10_cases) (auto simp: digit_val_def digit_char_def)

lemma nat_to_dec_digits: "list_all is_digit (nat_to_dec n)"
proof (induction n rule: nat_to_dec.induct)
  case (1 n)
  show ?case
  proof (cases "n < 10")
    case True
    then show ?thesis by (subst nat_to_dec.simps) (simp add: is_digit_digit_char)
  next
    case False
    with 1 show ?thesis by (subst nat_to_dec.simps) (simp add: is_digit_digit_char)
  qed
qed

lemma nat_to_dec_nonempty: "nat_to_dec n \<noteq> []"
  by (subst nat_to_dec.simps) simp

lemma dec_value_snoc: "dec_value (z @ [c]) = dec_value z * 10 + digit_val c"
  by (simp add: dec_value_def)

lemma dec_value_nat_to_dec: "dec_value (nat_to_dec n) = n"
proof (induction n rule: nat_to_dec.induct)
  case (1 n)
  show ?case
  proof (cases "n < 10")
    case True
    then show ?thesis
      by (subst nat_to_dec.simps) (simp add: dec_value_def digit_val_digit_char)
  next
    case False
    with 1 show ?thesis
      by (subst nat_to_dec.simps) (simp add: dec_value_snoc digit_val_digit_char)
  qed
qed

lemma is_digit_not_special:
  "is_digit c \<Longrightarrow> \<not> is_space c \<and> c \<noteq> CHR ''-'' \<and> c \<noteq> CHR ''+'' \<and> c \<noteq> CHR ''x'' \<and> c \<noteq> CHR ''X'' \<and> c \<noteq> CHR ''.''"
  by (auto simp: is_digit_def is_space_def Let_def)

lemma to_double_exact: "\<bar>x\<bar> \<le> 2 ^ 53 \<Longrightarrow> to_double x = x"
  by (simp add: to_double_def)

lemma plus_one_safe: "\<bar>l\<bar> < 2 ^ 53 \<Longrightarrow> plus_one (Num l) = Num (l + 1)"
proof -
  assume "\<bar>l\<bar> < 2 ^ 53"
  then have "\<bar>l + 1\<bar> \<le> 2 ^ 53" by simp
  then show ?thesis by (simp add: to_double_exact)
qed

text \<open>Beyond the safe integers the sum is rounded: a level of \<open>2^53\<close> stays where it is.\<close>

lemma plus_one_rounds:
  "plus_one (Num 9007199254740992) = Num 9007199254740992"
  "plus_one (Num 9007199254740994) = Num 9007199254740996"
  by code_simp+

lemma parse_digits_all_digits:
  assumes "list_all is_digit z" "z \<noteq> []"
  shows "parse_digits neg z =
           Num (to_double (if neg then - int (dec_value z) else int (dec_value z)))"
proof -
  have tw: "takeWhile is_digit z = z"
    using assms(1) by (simp add: list_all_iff)
  have nohex: "\<not> (case z of c1 # c2 # _ \<Rightarrow> c1 = CHR ''0'' \<and> (c2 = CHR ''x'' \<or> c2 = CHR ''X'') | _ \<Rightarrow> False)"
    using assms(1) by (auto split: list.splits simp: is_digit_def)
  show ?thesis
    unfolding parse_digits_def Let_def using nohex assms(2) by (simp add: tw)
qed

lemma parseInt_nat_to_dec: "parseInt (nat_to_dec n) = Num (to_double (int n))"
proof -
  obtain c cs where eq: "nat_to_dec n = c # cs"
    using nat_to_dec_nonempty by (cases "nat_to_dec n") auto
  have d: "is_digit c" using nat_to_dec_digits[of n] eq by simp
  have dw: "dropWhile is_space (c # cs) = c # cs"
    using d is_digit_not_special by simp
  have "parseInt (c # cs) = parse_digits False (c # cs)"
    unfolding parseInt_def dw using d is_digit_not_special by simp
  also have "\<dots> = Num (to_double (int (dec_value (c # cs))))"
    using parse_digits_all_digits[of "c # cs" False] nat_to_dec_digits[of n] eq by simp
  finally show ?thesis using eq dec_value_nat_to_dec[of n] by simp
qed

lemma parseInt_minus_nat_to_dec:
  "parseInt (CHR ''-'' # nat_to_dec n) = Num (to_double (- int n))"
proof -
  have sp: "\<not> is_space CHR ''-''" by (simp add: is_space_def)
  have "parseInt (CHR ''-'' # nat_to_dec n) = parse_digits True (nat_to_dec n)"
    unfolding parseInt_def using sp by simp
  then show ?thesis
    using parse_digits_all_digits[of "nat_to_dec n" True] nat_to_dec_digits nat_to_dec_nonempty
      dec_value_nat_to_dec by simp
qed

lemma parseInt_NaN: "parseInt ''NaN'' = NaN"
  by (simp add: parseInt_def is_space_def parse_digits_def is_digit_def)

lemma parseInt_toString: "exact_or_NaN x \<Longrightarrow> parseInt (toString x) = x"
proof (cases x)
  case (Num i)
  assume "exact_or_NaN x"
  then have "\<bar>i\<bar> \<le> 2 ^ 53" using Num by simp
  then have "to_double i = i" by (rule to_double_exact)
  then show ?thesis using Num
    by (cases "i < 0") (simp_all add: parseInt_nat_to_dec parseInt_minus_nat_to_dec)
next
  case NaN
  then show ?thesis by (simp add: parseInt_NaN)
qed

lemma toString_nonempty: "toString x \<noteq> []"
  by (cases x) (simp_all add: nat_to_dec_nonempty)

lemma stored_level_roundtrip:
  "exact_or_NaN x \<Longrightarrow> parseInt (or_default (toString x) ''0'') = x"
  by (simp add: or_default_def toString_nonempty parseInt_toString)

section \<open>Facts about the store\<close>

lemma existsWallet_lower: "existsWallet r (toLowerCase w) = existsWallet r w"
  by (simp add: existsWallet_def toLowerCase_idem)

lemma existsWallet_key: "existsWallet r w = (hashes r (nodeKey r w) \<noteq> None)"
  by (simp add: existsWallet_def nodeKey_lower)

lemma existsWallet_cong_lower:
  "toLowerCase w2 = toLowerCase w1 \<Longrightarrow> existsWallet r w2 = existsWallet r w1"
  by (simp add: existsWallet_def)

lemma getNodeInfo_cong_lower:
  "toLowerCase w2 = toLowerCase w1 \<Longrightarrow> getNodeInfo r w2 = getNodeInfo r w1"
  by (simp add: getNodeInfo_def)

lemma getNodeInfo_exists: "(getNodeInfo r w \<noteq> None) = existsWallet r w"
  by (simp add: getNodeInfo_def existsWallet_def split: option.splits)

lemma addNode_fails:
  "existsWallet r (info_wallet info) \<Longrightarrow>
   addNode r info = (Inl (NodeAlreadyExists (toLowerCase (info_wallet info))), r)"
  by (simp add: addNode_def existsWallet_key nodeKey_lower Let_def)

lemma nodeKey_update [simp]:
  "nodeKey (r\<lparr>hashes := h, sets := s\<rparr>) w = nodeKey r w"
  by (simp add: nodeKey_def)

lemma addNode_exists_after: "existsWallet (snd (addNode r info)) (info_wallet info)"
proof (cases "hashes r (nodeKey r (info_wallet info))")
  case None
  then show ?thesis
    by (simp add: addNode_def existsWallet_key nodeKey_lower Let_def)
next
  case (Some a)
  then show ?thesis
    by (simp add: addNode_def existsWallet_key nodeKey_lower Let_def)
qed

lemma addNode_twice:
  assumes b: "toLowerCase (info_wallet b) = toLowerCase (info_wallet a)"
  shows "addNode (snd (addNode r a)) b =
           (Inl (NodeAlreadyExists (toLowerCase (info_wallet a))), snd (addNode r a))"
proof -
  have "existsWallet (snd (addNode r a)) (info_wallet b)"
    using addNode_exists_after[of r a] existsWallet_cong_lower[OF b] by simp
  from addNode_fails[OF this] show ?thesis using b by simp
qed

lemma addNodeLite_as_addNode:
  "\<exists>lv chain. addNodeLite r newId w n ref =
     addNode r \<lparr> info_id = newId, info_name = n, info_wallet = toLowerCase w,
                 info_refer = toLowerCase ref, info_refer_id = chain, info_lv = lv \<rparr>"
  by (auto simp: addNodeLite_def Let_def split: option.splits prod.splits)

lemma addNode_new:
  assumes "\<not> existsWallet r (info_wallet info)"
  shows "fst (addNode r info) = Inr ()"
    and "hashes (snd (addNode r info)) (nodeKey r (info_wallet info)) =
           Some \<lparr> h_id = info_id info, h_name = info_name info, h_wallet = toLowerCase (info_wallet info),
                  h_refer = toLowerCase (info_refer info), h_refer_id = info_refer_id info,
                  h_lv = toString (info_lv info) \<rparr>"
    and "key_prefix (snd (addNode r info)) = key_prefix r"
  using assms by (simp_all add: addNode_def existsWallet_key nodeKey_lower Let_def)

lemma getNodeInfo_addNode_new:
  assumes "\<not> existsWallet r (info_wallet info)" and ex: "exact_or_NaN (info_lv info)"
  shows "getNodeInfo (snd (addNode r info)) (info_wallet info) =
           Some (info\<lparr> info_wallet := toLowerCase (info_wallet info),
                       info_refer := toLowerCase (info_refer info) \<rparr>)"
proof -
  have k: "nodeKey (snd (addNode r info)) (toLowerCase (info_wallet info)) = nodeKey r (info_wallet info)"
    using addNode_new(3)[OF assms(1)] by (simp add: nodeKey_def toLowerCase_idem)
  show ?thesis
    unfolding getNodeInfo_def k using addNode_new(2)[OF assms(1)]
    by (simp add: stored_level_roundtrip[OF ex])
qed

lemma addNodeLite_no_parent:
  assumes noref: "\<not> existsWallet r refer" and fresh: "\<not> existsWallet r wallet"
  shows "fst (addNodeLite r newId wallet name refer) = Inr () \<and>
         getNodeInfo (snd (addNodeLite r newId wallet name refer)) wallet =
           Some \<lparr> info_id = newId, info_name = name, info_wallet = toLowerCase wallet,
                  info_refer = toLowerCase refer, info_refer_id = [], info_lv = Num 1 \<rparr>"
proof -
  let ?info = "\<lparr> info_id = newId, info_name = name, info_wallet = toLowerCase wallet,
                  info_refer = toLowerCase refer, info_refer_id = [], info_lv = Num 1 \<rparr>"
  have eq: "addNodeLite r newId wallet name refer = addNode r ?info"
    using noref by (simp add: addNodeLite_def Let_def existsWallet_lower)
  have fr: "\<not> existsWallet r (info_wallet ?info)"
    using fresh by (simp add: existsWallet_lower)
  have "getNodeInfo (snd (addNode r ?info)) (toLowerCase wallet) = Some ?info"
    using getNodeInfo_addNode_new[OF fr] by (simp add: toLowerCase_idem)
  then have "getNodeInfo (snd (addNode r ?info)) wallet = Some ?info"
    using getNodeInfo_cong_lower[of "toLowerCase wallet" wallet] by (simp add: toLowerCase_idem)
  then show ?thesis
    unfolding eq using addNode_new(1)[OF fr] by simp
qed

lemma addNodeLite_with_parent:
  assumes gp: "getNodeInfo r refer = Some p" and safe: "isSafeInteger (info_lv p)"
    and fresh: "\<not> existsWallet r wallet"
  shows "fst (addNodeLite r newId wallet name refer) = Inr () \<and>
         getNodeInfo (snd (addNodeLite r newId wallet name refer)) wallet =
           Some \<lparr> info_id = newId, info_name = name, info_wallet = toLowerCase wallet,
                  info_refer = toLowerCase refer,
                  info_refer_id =
                    (if info_refer_id p = [] then info_id p else info_refer_id p @ '';'' @ info_id p),
                  info_lv = plus_one (info_lv p) \<rparr>"
proof -
  have ex: "existsWallet r refer"
    using gp getNodeInfo_exists[of r refer] by simp
  obtain parent where p: "hashes r (nodeKey r refer) = Some parent"
    using ex by (auto simp: existsWallet_key)
  have gp': "p =
      \<lparr> info_id = h_id parent, info_name = h_name parent, info_wallet = h_wallet parent,
        info_refer = h_refer parent, info_refer_id = h_refer_id parent,
        info_lv = parseInt (or_default (h_lv parent) ''0'') \<rparr>"
    using p gp by (simp add: getNodeInfo_def nodeKey_lower)
  let ?chain = "if h_refer_id parent = [] then h_id parent else h_refer_id parent @ '';'' @ h_id parent"
  let ?info = "\<lparr> info_id = newId, info_name = name, info_wallet = toLowerCase wallet,
                  info_refer = toLowerCase refer, info_refer_id = ?chain,
                  info_lv = plus_one (parseInt (or_default (h_lv parent) ''0'')) \<rparr>"
  have eq: "addNodeLite r newId wallet name refer = addNode r ?info"
    using ex p by (simp add: addNodeLite_def Let_def existsWallet_lower nodeKey_lower or_default_def)
  have fr: "\<not> existsWallet r (info_wallet ?info)"
    using fresh by (simp add: existsWallet_lower)
  obtain l where l: "parseInt (or_default (h_lv parent) ''0'') = Num l" "\<bar>l\<bar> < 2 ^ 53"
    using safe gp' by (cases "parseInt (or_default (h_lv parent) ''0'')") auto
  have exact: "exact_or_NaN (info_lv ?info)"
    using l by (simp add: plus_one_safe del: plus_one.simps)
  have "getNodeInfo (snd (addNode r ?info)) (toLowerCase wallet) = Some ?info"
    using getNodeInfo_addNode_new[OF fr exact] by (simp add: toLowerCase_idem)
  then have "getNodeInfo (snd (addNode r ?info)) wallet = Some ?info"
    using getNodeInfo_cong_lower[of "toLowerCase wallet" wallet] by (simp add: toLowerCase_idem)
  then show ?thesis
    unfolding eq using addNode_new(1)[OF fr] gp' by simp
qed

text \<open>What a call of \<open>addNodeLite\<close> leaves as it was: every node of another wallet.\<close>

lemma nodeKey_inj: "(nodeKey r a = nodeKey r b) = (toLowerCase a = toLowerCase b)"
  by (simp add: nodeKey_def)

lemma addNode_frame:
  assumes "toLowerCase w \<noteq> toLowerCase (info_wallet info)"
  shows "getNodeInfo (snd (addNode r info)) w = getNodeInfo r w"
proof -
  have "nodeKey r (toLowerCase w) \<noteq> nodeKey r (toLowerCase (info_wallet info))"
    using assms by (simp add: nodeKey_inj toLowerCase_idem)
  then show ?thesis
    by (simp add: addNode_def getNodeInfo_def Let_def)
qed

lemma addNodeLite_frame:
  assumes "toLowerCase w \<noteq> toLowerCase wallet"
  shows "getNodeInfo (snd (addNodeLite r newId wallet name refer)) w = getNodeInfo r w"
proof -
  obtain lv chain where "addNodeLite r newId wallet name refer =
     addNode r \<lparr> info_id = newId, info_name = name, info_wallet = toLowerCase wallet,
                 info_refer = toLowerCase refer, info_refer_id = chain, info_lv = lv \<rparr>"
    using addNodeLite_as_addNode by blast
  then show ?thesis
    using addNode_frame[of w _ r] assms by (simp add: toLowerCase_idem)
qed

lemma existsWallet_addNodeLite:
  "existsWallet (snd (addNodeLite r newId wallet name refer)) w =
     (existsWallet r w \<or> toLowerCase w = toLowerCase wallet)"
proof (cases "toLowerCase w = toLowerCase wallet")
  case True
  obtain lv chain where eq: "addNodeLite r newId wallet name refer =
     addNode r \<lparr> info_id = newId, info_name = name, info_wallet = toLowerCase wallet,
                 info_refer = toLowerCase refer, info_refer_id = chain, info_lv = lv \<rparr>"
    using addNodeLite_as_addNode by blast
  have "existsWallet (snd (addNodeLite r newId wallet name refer)) (toLowerCase wallet)"
    unfolding eq
    using addNode_exists_after[of r "\<lparr> info_id = newId, info_name = name,
      info_wallet = toLowerCase wallet, info_refer = toLowerCase refer, info_refer_id = chain,
      info_lv = lv \<rparr>"] by simp
  then show ?thesis
    using True existsWallet_cong_lower[of w "toLowerCase wallet"] by (simp add: toLowerCase_idem)
next
  case False
  then show ?thesis
    using addNodeLite_frame[OF False, of r newId name refer] getNodeInfo_exists[of _ w]
    by metis
qed

lemma existsWallet_enroll:
  "existsWallet (enroll r es) w =
     (existsWallet r w \<or> toLowerCase w \<in> set (map (\<lambda>e. toLowerCase (e_wallet e)) es))"
  by (induction es arbitrary: r) (auto simp: existsWallet_addNodeLite)

text \<open>
  One enrollment that names no referrer or a stored one keeps the invariant of
  every stored node, provided that no node is stored under the empty wallet.
\<close>

lemma referrer_first_step:
  assumes inv: "\<And>w. spec_level_invariant r w" and ne: "\<not> existsWallet r []"
    and adm: "referrer_stored r e"
  shows "spec_level_invariant (snd (addNodeLite r (e_id e) (e_wallet e) (e_name e) (e_refer e))) w"
proof -
  let ?r' = "snd (addNodeLite r (e_id e) (e_wallet e) (e_name e) (e_refer e))"
  have fresh: "\<not> existsWallet r (e_wallet e)" and nonempty: "toLowerCase (e_wallet e) \<noteq> []"
    using adm by (simp_all add: referrer_stored_def)
  have keep: "getNodeInfo ?r' v = getNodeInfo r v" if "existsWallet r v" for v
  proof -
    have "toLowerCase v \<noteq> toLowerCase (e_wallet e)"
      using that fresh existsWallet_cong_lower[of v "e_wallet e" r] by auto
    then show ?thesis by (rule addNodeLite_frame)
  qed
  show ?thesis
  proof (cases "toLowerCase w = toLowerCase (e_wallet e)")
    case True
    then have gw: "getNodeInfo ?r' w = getNodeInfo ?r' (e_wallet e)"
      by (rule getNodeInfo_cong_lower)
    show ?thesis
    proof (cases "toLowerCase (e_refer e) = []")
      case noref: True
      then have "\<not> existsWallet r (e_refer e)"
        using ne existsWallet_cong_lower[of "e_refer e" "[]" r] by (simp add: toLowerCase_def)
      from addNodeLite_no_parent[OF this fresh, of "e_id e" "e_name e"]
      show ?thesis
        unfolding spec_level_invariant_def gw using noref by simp
    next
      case ref: False
      then obtain p where gp: "getNodeInfo r (e_refer e) = Some p" and safe: "isSafeInteger (info_lv p)"
        using adm by (auto simp: referrer_stored_def split: option.splits)
      obtain l where l: "info_lv p = Num l" "\<bar>l\<bar> < 2 ^ 53"
        using safe by (cases "info_lv p") auto
      have exr: "existsWallet r (toLowerCase (e_refer e))"
        using gp getNodeInfo_exists[of r "e_refer e"] by (simp add: existsWallet_lower)
      have gp': "getNodeInfo ?r' (toLowerCase (e_refer e)) = Some p"
        using keep[OF exr] gp getNodeInfo_cong_lower[of "toLowerCase (e_refer e)" "e_refer e" r]
        by (simp add: toLowerCase_idem)
      from addNodeLite_with_parent[OF gp safe fresh, of "e_id e" "e_name e"]
      show ?thesis
        unfolding spec_level_invariant_def gw using ref gp' l
        by (simp add: plus_one_safe del: plus_one.simps)
    qed
  next
    case False
    then have same: "getNodeInfo ?r' w = getNodeInfo r w" by (rule addNodeLite_frame)
    show ?thesis
    proof (cases "getNodeInfo r w")
      case None
      then show ?thesis unfolding spec_level_invariant_def same by simp
    next
      case (Some n)
      show ?thesis
      proof (cases "info_refer n = []")
        case True
        then show ?thesis
          using inv[of w] Some unfolding spec_level_invariant_def same by simp
      next
        case False
        then obtain p where gp: "getNodeInfo r (info_refer n) = Some p"
          using inv[of w] Some unfolding spec_level_invariant_def
          by (auto split: option.splits)
        then have "existsWallet r (info_refer n)"
          using getNodeInfo_exists[of r "info_refer n"] by simp
        from keep[OF this] show ?thesis
          using inv[of w] Some unfolding spec_level_invariant_def same by simp
      qed
    qed
  qed
qed

lemma referrers_first_invariant:
  "(\<And>w. spec_level_invariant r w) \<Longrightarrow> \<not> existsWallet r [] \<Longrightarrow> referrers_first r es \<Longrightarrow>
   spec_level_invariant (enroll r es) w"
proof (induction es arbitrary: r w)
  case Nil
  then show ?case by simp
next
  case (Cons e es)
  let ?r' = "snd (addNodeLite r (e_id e) (e_wallet e) (e_name e) (e_refer e))"
  have adm: "referrer_stored r e" and rest: "referrers_first ?r' es"
    using Cons.prems(3) by simp_all
  have inv': "spec_level_invariant ?r' v" for v
    using referrer_first_step[OF Cons.prems(1) Cons.prems(2) adm] .
  have ne': "\<not> existsWallet ?r' []"
    using Cons.prems(2) adm
    by (simp add: existsWallet_addNodeLite referrer_stored_def toLowerCase_def)
  from Cons.IH[OF inv' ne' rest] show ?case by simp
qed

lemmas store_eval =
  empty_store_def addNodeLite_def addNode_def existsWallet_def nodeKey_def getNodeInfo_def
  toLowerCase_def lower_char_def Let_def allWalletsKey_def nat_to_dec.simps digit_char_def
  or_default_def parseInt_def parse_digits_def is_space_def is_digit_def dec_value_def digit_val_def
  to_double_def

lemma store_alice_node:
  "getNodeInfo store_alice ''0xabc1'' =
     Some \<lparr> info_id = ''id1'', info_name = ''Alice'', info_wallet = ''0xabc1'', info_refer = [],
            info_refer_id = [], info_lv = Num 1 \<rparr>"
  by (simp add: store_alice_def store_eval)

text \<open>
  The run of the source's own test: Alice without referrer, Bob under Alice, Carol
  under Bob. Carol is stored at level 3 with the chain of the ids of Alice and Bob.
\<close>

lemma three_levels:
  "map_option (\<lambda>n. (info_refer n, info_lv n, info_refer_id n))
     (getNodeInfo
        (snd (addNodeLite (snd (addNodeLite store_alice ''id2'' ''0xdef2'' ''Bob'' ''0xabc1''))
                ''id3'' ''0xghi3'' ''Carol'' ''0xdef2''))
        ''0xghi3'') =
   Some (''0xdef2'', Num 3, ''id1;id2'')"
  by code_simp

subsection \<open>Duplicate enrollment\<close>

text \<open>
  Inserting a node for the same wallet twice, with \<open>addNode\<close> or with
  \<open>addNodeLite\<close> and whatever the spelling of the address, leaves one stored node:
  the second call throws "Node already exists", returns the store of the first call
  unchanged, and the wallet is stored there.
\<close>

lemma second_insert_rejected:
  assumes same: "toLowerCase w2 = toLowerCase w1"
  shows "(let r1 = snd (addNode r (i1\<lparr>info_wallet := w1\<rparr>))
          in addNode r1 (i2\<lparr>info_wallet := w2\<rparr>) = (Inl (NodeAlreadyExists (toLowerCase w1)), r1) \<and>
             existsWallet r1 w1 \<and> getNodeInfo r1 w2 = getNodeInfo r1 w1) \<and>
         (let r1 = snd (addNodeLite r id1 w1 n1 ref1)
          in addNodeLite r1 id2 w2 n2 ref2 = (Inl (NodeAlreadyExists (toLowerCase w1)), r1) \<and>
             existsWallet r1 w1 \<and> getNodeInfo r1 w2 = getNodeInfo r1 w1)"
proof -
  have g: "getNodeInfo s w2 = getNodeInfo s w1" for s
    using getNodeInfo_cong_lower[OF same] .
  have part1: "addNode (snd (addNode r (i1\<lparr>info_wallet := w1\<rparr>))) (i2\<lparr>info_wallet := w2\<rparr>)
        = (Inl (NodeAlreadyExists (toLowerCase w1)), snd (addNode r (i1\<lparr>info_wallet := w1\<rparr>)))"
    using addNode_twice[of "i2\<lparr>info_wallet := w2\<rparr>" "i1\<lparr>info_wallet := w1\<rparr>" r] same by simp
  have ex1: "existsWallet (snd (addNode r (i1\<lparr>info_wallet := w1\<rparr>))) w1"
    using addNode_exists_after[of r "i1\<lparr>info_wallet := w1\<rparr>"] by simp
  obtain lv1 c1 where l1: "addNodeLite r id1 w1 n1 ref1 =
     addNode r \<lparr> info_id = id1, info_name = n1, info_wallet = toLowerCase w1,
                 info_refer = toLowerCase ref1, info_refer_id = c1, info_lv = lv1 \<rparr>"
    using addNodeLite_as_addNode by blast
  define r1 where "r1 = snd (addNodeLite r id1 w1 n1 ref1)"
  obtain lv2 c2 where l2: "addNodeLite r1 id2 w2 n2 ref2 =
     addNode r1 \<lparr> info_id = id2, info_name = n2, info_wallet = toLowerCase w2,
                 info_refer = toLowerCase ref2, info_refer_id = c2, info_lv = lv2 \<rparr>"
    using addNodeLite_as_addNode by blast
  have ex2: "existsWallet r1 w1"
    unfolding r1_def l1
    using addNode_exists_after[of r "\<lparr> info_id = id1, info_name = n1, info_wallet = toLowerCase w1,
                 info_refer = toLowerCase ref1, info_refer_id = c1, info_lv = lv1 \<rparr>"]
    by (simp add: existsWallet_lower)
  have part2: "addNodeLite r1 id2 w2 n2 ref2 = (Inl (NodeAlreadyExists (toLowerCase w1)), r1)"
    unfolding l2 using addNode_fails[of r1 "\<lparr> info_id = id2, info_name = n2, info_wallet = toLowerCase w2,
                 info_refer = toLowerCase ref2, info_refer_id = c2, info_lv = lv2 \<rparr>"] ex2
      existsWallet_cong_lower[OF same, of r1]
    by (simp add: existsWallet_lower same toLowerCase_idem)
  show ?thesis
    using part1 ex1 part2 ex2 g unfolding r1_def Let_def by simp
qed

subsection \<open>Level and ancestor chain\<close>

text \<open>
  C10. A call of \<open>addNodeLite\<close> whose referrer has no stored node creates a node of
  level 1 with an empty ancestor chain, and still records the (lower-cased) referrer
  address in the node.
\<close>

theorem dangling_referrer_becomes_root:
  assumes noref: "\<not> existsWallet r refer" and fresh: "\<not> existsWallet r wallet"
  shows "fst (addNodeLite r newId wallet name refer) = Inr () \<and>
         getNodeInfo (snd (addNodeLite r newId wallet name refer)) wallet =
           Some \<lparr> info_id = newId, info_name = name, info_wallet = toLowerCase wallet,
                  info_refer = toLowerCase refer, info_refer_id = [], info_lv = Num 1 \<rparr>"
  using addNodeLite_no_parent[OF noref fresh] .

theorem dangling_referrer_becomes_root_witness:
  "\<not> existsWallet empty_store ''0xA1'' \<and> \<not> existsWallet empty_store ''0xB2'' \<and>
   fst (addNodeLite empty_store ''k3x9'' ''0xB2'' ''Bob'' ''0xA1'') = Inr () \<and>
   getNodeInfo (snd (addNodeLite empty_store ''k3x9'' ''0xB2'' ''Bob'' ''0xA1'')) ''0xB2'' =
     Some \<lparr> info_id = ''k3x9'', info_name = ''Bob'', info_wallet = ''0xb2'',
            info_refer = ''0xa1'', info_refer_id = [], info_lv = Num 1 \<rparr>"
proof -
  have a: "\<not> existsWallet empty_store ''0xA1''" by (simp add: existsWallet_def empty_store_def)
  have b: "\<not> existsWallet empty_store ''0xB2''" by (simp add: existsWallet_def empty_store_def)
  have l: "toLowerCase ''0xB2'' = ''0xb2''" "toLowerCase ''0xA1'' = ''0xa1''"
    by (simp_all add: toLowerCase_def lower_char_def)
  show ?thesis
    using dangling_referrer_becomes_root[OF a b, of "''k3x9''" "''Bob''"] a b l by simp
qed

text \<open>
  The level and the chain are fixed when \<open>addNodeLite\<close> creates the node, from what
  is stored at that moment: with no stored node for the referrer (an empty referrer
  included) the level is 1 and the chain is empty; with a stored referrer node at a
  safe level the level is that node's level plus 1 and the chain is that node's
  chain extended by its id (joined with a semicolon).
\<close>

lemma level_and_chain_at_insertion:
  assumes fresh: "\<not> existsWallet r wallet"
    and safe: "\<And>p. getNodeInfo r refer = Some p \<Longrightarrow> isSafeInteger (info_lv p)"
  shows "fst (addNodeLite r newId wallet name refer) = Inr () \<and>
         getNodeInfo (snd (addNodeLite r newId wallet name refer)) wallet =
           Some \<lparr> info_id = newId, info_name = name, info_wallet = toLowerCase wallet,
                  info_refer = toLowerCase refer,
                  info_refer_id =
                    (case getNodeInfo r refer of
                       None \<Rightarrow> []
                     | Some p \<Rightarrow> if info_refer_id p = [] then info_id p
                                 else info_refer_id p @ '';'' @ info_id p),
                  info_lv =
                    (case getNodeInfo r refer of
                       None \<Rightarrow> Num 1
                     | Some p \<Rightarrow> plus_one (info_lv p)) \<rparr>"
proof (cases "getNodeInfo r refer")
  case None
  then have "\<not> existsWallet r refer"
    using getNodeInfo_exists[of r refer] by simp
  then show ?thesis
    using addNodeLite_no_parent[OF _ fresh] None by simp
next
  case (Some p)
  from addNodeLite_with_parent[OF Some safe[OF Some] fresh, of newId name]
  show ?thesis using Some by simp
qed

text \<open>
  C7, for the stores in which it holds. Starting from an empty store, let nodes be
  enrolled with \<open>addNodeLite\<close>, each for a non-empty wallet that is not stored yet
  and each naming no referrer or a referrer that is already stored (at a level that
  is a safe integer). Then the stored nodes are exactly the enrolled wallets, and
  every stored node, at any depth, satisfies the invariant of the specification: with
  an empty referrer its level is 1 and its chain is empty, and otherwise its
  referrer is stored, its level is the referrer's level plus 1 and its chain is the
  referrer's chain extended by the referrer's id.
\<close>

theorem level_invariant_of_referrer_first_stores:
  assumes empty: "hashes r = Map.empty" and first: "referrers_first r es"
  shows "existsWallet (enroll r es) wallet =
           (toLowerCase wallet \<in> set (map (\<lambda>e. toLowerCase (e_wallet e)) es)) \<and>
         spec_level_invariant (enroll r es) wallet"
proof -
  have none: "getNodeInfo r v = None" for v
    using empty by (simp add: getNodeInfo_def)
  then have inv: "spec_level_invariant r v" for v
    by (simp add: spec_level_invariant_def)
  have ne: "\<not> existsWallet r v" for v
    using empty by (simp add: existsWallet_def)
  show ?thesis
    using referrers_first_invariant[OF inv ne first] existsWallet_enroll[of r es wallet] ne
    by simp
qed

text \<open>
  The run of the source's own test with two more enrollments: the five enrollments
  put every referrer first, Carol is stored at level 3 under Bob with the chain of
  the ids of Alice and Bob, and the invariant holds for her node.
\<close>

theorem level_invariant_of_referrer_first_stores_witness:
  "hashes empty_store = Map.empty \<and> referrers_first empty_store family \<and>
   existsWallet (enroll empty_store family) ''0xGHI3'' \<and>
   spec_level_invariant (enroll empty_store family) ''0xGHI3'' \<and>
   map_option (\<lambda>n. (info_refer n, info_lv n, info_refer_id n))
     (getNodeInfo (enroll empty_store family) ''0xGHI3'') = Some (''0xdef2'', Num 3, ''id1;id2'') \<and>
   map_option (\<lambda>n. (info_refer n, info_lv n, info_refer_id n))
     (getNodeInfo (enroll empty_store family) ''0xe5'') = Some (''0xabc1'', Num 2, ''id1'')"
proof -
  have e: "hashes empty_store = Map.empty" by (simp add: empty_store_def)
  have f: "referrers_first empty_store family" by code_simp
  have m: "toLowerCase ''0xGHI3'' \<in> set (map (\<lambda>e. toLowerCase (e_wallet e)) family)"
    by code_simp
  have g: "map_option (\<lambda>n. (info_refer n, info_lv n, info_refer_id n))
     (getNodeInfo (enroll empty_store family) ''0xGHI3'') = Some (''0xdef2'', Num 3, ''id1;id2'')"
    "map_option (\<lambda>n. (info_refer n, info_lv n, info_refer_id n))
     (getNodeInfo (enroll empty_store family) ''0xe5'') = Some (''0xabc1'', Num 2, ''id1'')"
    by code_simp+
  show ?thesis
    using level_invariant_of_referrer_first_stores[OF e f, of "''0xGHI3''"] e f m g by blast
qed

text \<open>
  The invariant as stated fails on a store that \<open>addNodeLite\<close> alone has built: Bob is
  enrolled under the referrer \<open>0xa1\<close> before \<open>0xa1\<close> itself is. Both nodes are then
  stored at level 1, and Bob's chain is empty although his referrer is stored with id
  \<open>id2\<close>.
\<close>

theorem level_invariant_counterexample:
  "\<not> spec_level_invariant store_late_parent ''0xb2'' \<and>
   map_option info_refer (getNodeInfo store_late_parent ''0xb2'') = Some ''0xa1'' \<and>
   map_option info_lv (getNodeInfo store_late_parent ''0xb2'') = Some (Num 1) \<and>
   map_option info_refer_id (getNodeInfo store_late_parent ''0xb2'') = Some [] \<and>
   map_option info_lv (getNodeInfo store_late_parent ''0xa1'') = Some (Num 1) \<and>
   map_option info_id (getNodeInfo store_late_parent ''0xa1'') = Some ''id2''"
  by code_simp

text \<open>
  The other conditions are needed as well. With a node stored under the empty
  wallet, a node enrolled without referrer is put below it, at level 2. Below a
  referrer at level \<open>2^53\<close> the sum is rounded and the new node is stored at the
  level of its referrer. When the node of a referrer is removed, the nodes below it
  keep their referrer, level and chain.
\<close>

lemma level_invariant_needs_no_removal:
  "\<not> spec_level_invariant (removeNode (enroll empty_store family) ''0xabc1'') ''0xdef2'' \<and>
   getNodeInfo (removeNode (enroll empty_store family) ''0xabc1'') ''0xabc1'' = None \<and>
   map_option (\<lambda>n. (info_refer n, info_lv n, info_refer_id n))
     (getNodeInfo (removeNode (enroll empty_store family) ''0xabc1'') ''0xdef2'') =
     Some (''0xabc1'', Num 2, ''id1'')"
  by code_simp

lemma level_invariant_needs_nonempty_wallet:
  "\<not> spec_level_invariant store_empty_wallet ''0xb2'' \<and>
   map_option (\<lambda>n. (info_refer n, info_lv n, info_refer_id n))
     (getNodeInfo store_empty_wallet ''0xb2'') = Some ([], Num 2, ''id0'')"
  by code_simp

lemma level_invariant_needs_safe_level:
  "\<not> spec_level_invariant store_deep ''0xb2'' \<and>
   map_option info_lv (getNodeInfo store_deep ''0xa1'') = Some (Num 9007199254740992) \<and>
   map_option info_lv (getNodeInfo store_deep ''0xb2'') = Some (Num 9007199254740992)"
  by (simp add: spec_level_invariant_def store_deep_def store_eval bit_length.simps)

section \<open>Facts about the classifier\<close>

lemma analyzeERC20Events_keeps:
  "p_transactionType (analyzeERC20Events env logs r) = p_transactionType r \<and>
   p_bnbChange (analyzeERC20Events env logs r) = p_bnbChange r"
  by (induction logs arbitrary: r) (simp_all add: Let_def split: option.splits list.splits)

lemma parseTransaction_empty_payload:
  assumes "data_or_0x (tx_data t) = ''0x''"
  shows "p_transactionType (parseTransaction env t rcpt) =
           (if tx_value t > 0 then bnb_transfer else contract_call)"
    and "p_bnbChange (parseTransaction env t rcpt) =
           (if tx_value t > 0
            then \<lparr> bnb_from = ''-'' @ formatEther (tx_value t),
                   bnb_to = (if truthy (tx_to t) then formatEther (tx_value t) else ''0'') \<rparr>
            else \<lparr> bnb_from = ''0'', bnb_to = ''0'' \<rparr>)"
  using assms
  by (simp_all add: parseTransaction_def analyzeBNBChange_def analyzeTransactionType_def Let_def
      analyzeERC20Events_keeps split: option.splits)

lemma one_unit_formatted: "formatEther 1000000000000000000 = ''1.0''"
  by code_simp

text \<open>
  C6, as the code has it. A transaction with payload \<open>0x\<close> and a positive value is
  classified \<open>bnb_transfer\<close> (the native transfer) and its sender delta is the minus
  sign followed by the value at 18 decimals; the recipient delta is the value at 18
  decimals, so the sender delta is its negation, when the transaction has a recipient,
  and stays \<open>0\<close> when it has none (a contract creation). With payload \<open>0x\<close> and no
  positive value the classification is \<open>contract_call\<close>.
\<close>

theorem empty_payload_classification:
  assumes "tx_data t = Some ''0x''"
  shows "(let r = parseTransaction env t rcpt in
          (0 < tx_value t \<longrightarrow>
             p_transactionType r = bnb_transfer \<and>
             bnb_from (p_bnbChange r) = ''-'' @ formatEther (tx_value t) \<and>
             (truthy (tx_to t) \<longrightarrow>
                bnb_to (p_bnbChange r) = formatEther (tx_value t) \<and>
                bnb_from (p_bnbChange r) = ''-'' @ bnb_to (p_bnbChange r)) \<and>
             (\<not> truthy (tx_to t) \<longrightarrow> bnb_to (p_bnbChange r) = ''0'')) \<and>
          (tx_value t \<le> 0 \<longrightarrow> p_transactionType r = contract_call))"
proof -
  have d: "data_or_0x (tx_data t) = ''0x''"
    using assms by (simp add: data_or_0x_def)
  show ?thesis
    unfolding Let_def
    by (simp add: parseTransaction_empty_payload[OF d])
qed

theorem empty_payload_classification_witness:
  "tx_data plain_transfer = Some ''0x'' \<and> 0 < tx_value plain_transfer \<and> truthy (tx_to plain_transfer) \<and>
   p_transactionType (parseTransaction no_code_env plain_transfer None) = bnb_transfer \<and>
   bnb_from (p_bnbChange (parseTransaction no_code_env plain_transfer None)) = ''-1.0'' \<and>
   bnb_to (p_bnbChange (parseTransaction no_code_env plain_transfer None)) = ''1.0'' \<and>
   tx_value (plain_transfer\<lparr> tx_value := 0 \<rparr>) \<le> 0 \<and>
   p_transactionType (parseTransaction no_code_env (plain_transfer\<lparr> tx_value := 0 \<rparr>) None) = contract_call"
proof -
  have d: "tx_data plain_transfer = Some ''0x''" "tx_data (plain_transfer\<lparr> tx_value := 0 \<rparr>) = Some ''0x''"
    by (simp_all add: plain_transfer_def)
  have v: "tx_value plain_transfer = 1000000000000000000" "truthy (tx_to plain_transfer)"
    by (simp_all add: plain_transfer_def truthy_def)
  show ?thesis
    using empty_payload_classification[OF d(1), of no_code_env None]
      empty_payload_classification[OF d(2), of no_code_env None] d v
    by (simp add: Let_def one_unit_formatted)
qed

text \<open>
  The property as the specification states it fails for a transaction without
  recipient: one unit sent with payload \<open>0x\<close> and \<open>to = null\<close> gives the sender
  delta \<open>-1.0\<close> and leaves the recipient delta at \<open>0\<close>.
\<close>

theorem native_delta_negation_counterexample:
  "tx_data creation_with_value = Some ''0x'' \<and> 0 < tx_value creation_with_value \<and>
   bnb_from (p_bnbChange (parseTransaction no_code_env creation_with_value None)) = ''-1.0'' \<and>
   bnb_to (p_bnbChange (parseTransaction no_code_env creation_with_value None)) = ''0'' \<and>
   bnb_from (p_bnbChange (parseTransaction no_code_env creation_with_value None)) \<noteq>
     ''-'' @ bnb_to (p_bnbChange (parseTransaction no_code_env creation_with_value None))"
  by code_simp

section \<open>Facts about the activity analysis\<close>

lemma analyze_change_hasActivity: "hasActivity (analyze_change f c a) = hasActivity a"
  by (simp add: analyze_change_def Let_def)

lemma analyze_changes_hasActivity: "hasActivity (analyze_changes f cs a) = hasActivity a"
  by (induction cs arbitrary: a) (simp_all add: analyze_change_hasActivity)

lemma analyzeTransaction_hasActivity:
  assumes "analyzeTransaction tx monitored names = Inr a"
  shows "hasActivity a =
           (toLowerCase (o_from tx) \<in> monitored \<and>
            ((case o_bnbChange tx of None \<Rightarrow> False | Some b \<Rightarrow> fb_from b \<noteq> ''0'' \<or> fb_to b \<noteq> ''0'') \<or>
             (case o_erc20Changes tx of None \<Rightarrow> False | Some cs \<Rightarrow> cs \<noteq> [])))"
  using assms
  by (auto simp: analyzeTransaction_def Let_def analyze_changes_hasActivity
      split: option.splits if_splits sum.splits)

lemma analyzeTransaction_untracked:
  assumes "analyzeTransaction tx monitored names = Inr a" "toLowerCase (o_from tx) \<notin> monitored"
  shows "sent a = [] \<and> received a = [] \<and> \<not> hasActivity a"
  using assms
  by (auto simp: analyzeTransaction_def Let_def split: option.splits if_splits sum.splits)

lemma analyzeTransaction_quiet:
  assumes "analyzeTransaction tx monitored names = Inr a"
    and "\<not> (case o_bnbChange tx of None \<Rightarrow> False | Some b \<Rightarrow> fb_from b \<noteq> ''0'' \<or> fb_to b \<noteq> ''0'')"
    and "\<not> (case o_erc20Changes tx of None \<Rightarrow> False | Some cs \<Rightarrow> cs \<noteq> [])"
  shows "sent a = [] \<and> received a = []"
  using assms
  by (auto simp: analyzeTransaction_def Let_def split: option.splits if_splits sum.splits)

text \<open>
  C2, as the code has it. Whenever \<open>analyzeTransaction\<close> returns, \<open>hasActivity\<close> is true
  exactly when the sender is tracked and the transaction carries a non-zero native
  change or at least one token change; every result with an entry in \<open>sent\<close> or
  \<open>received\<close> has \<open>hasActivity\<close> true.
\<close>

theorem hasActivity_characterisation:
  assumes "analyzeTransaction tx monitored names = Inr a"
  shows "(hasActivity a \<longleftrightarrow>
            toLowerCase (o_from tx) \<in> monitored \<and>
            ((case o_bnbChange tx of None \<Rightarrow> False | Some b \<Rightarrow> fb_from b \<noteq> ''0'' \<or> fb_to b \<noteq> ''0'') \<or>
             (case o_erc20Changes tx of None \<Rightarrow> False | Some cs \<Rightarrow> cs \<noteq> []))) \<and>
         (sent a \<noteq> [] \<or> received a \<noteq> [] \<longrightarrow> hasActivity a)"
proof -
  have 1: "hasActivity a =
           (toLowerCase (o_from tx) \<in> monitored \<and>
            ((case o_bnbChange tx of None \<Rightarrow> False | Some b \<Rightarrow> fb_from b \<noteq> ''0'' \<or> fb_to b \<noteq> ''0'') \<or>
             (case o_erc20Changes tx of None \<Rightarrow> False | Some cs \<Rightarrow> cs \<noteq> [])))"
    using analyzeTransaction_hasActivity[OF assms] .
  have 2: "hasActivity a" if "sent a \<noteq> [] \<or> received a \<noteq> []"
  proof (rule ccontr)
    assume n: "\<not> hasActivity a"
    show False
    proof (cases "toLowerCase (o_from tx) \<in> monitored")
      case False
      then show ?thesis using analyzeTransaction_untracked[OF assms] that by simp
    next
      case True
      with n 1 show ?thesis using analyzeTransaction_quiet[OF assms] that by simp
    qed
  qed
  show ?thesis using 1 2 by blast
qed

theorem hasActivity_characterisation_witness:
  "analyzeTransaction own_transfer {''0xaaaa''} Map.empty =
     Inr \<lparr> hasActivity = True, an_walletName = ''Unknown'', an_walletAddress = ''0xaaaa'', received = [],
           sent = [\<lparr> e_type = ''token'', e_tokenAddress = Some ''0x55d3'', e_tokenSymbol = Some ''USDT'',
                    e_formattedValue = ''0.000000000000000005'', e_from = ''0xaaaa'', e_to = ''0xdddd'' \<rparr>] \<rparr> \<and>
   toLowerCase (o_from own_transfer) \<in> {''0xaaaa''} \<and>
   o_erc20Changes own_transfer \<noteq> Some []"
proof -
  have r: "analyzeTransaction own_transfer {''0xaaaa''} Map.empty =
     Inr \<lparr> hasActivity = True, an_walletName = ''Unknown'', an_walletAddress = ''0xaaaa'', received = [],
           sent = [\<lparr> e_type = ''token'', e_tokenAddress = Some ''0x55d3'', e_tokenSymbol = Some ''USDT'',
                    e_formattedValue = ''0.000000000000000005'', e_from = ''0xaaaa'', e_to = ''0xdddd'' \<rparr>] \<rparr>"
    by code_simp
  have m: "toLowerCase (o_from own_transfer) \<in> {''0xaaaa''}"
    by code_simp
  have c: "o_erc20Changes own_transfer \<noteq> Some []"
    by code_simp
  from hasActivity_characterisation[OF r] r m c show ?thesis by simp
qed

text \<open>
  The equivalence of the specification fails in one direction: for the tracked sender
  \<open>0xaaaa\<close> and a token transfer between two other accounts the result has
  \<open>hasActivity\<close> true and no entry at all.
\<close>

theorem hasActivity_without_entries_counterexample:
  "analyzeTransaction third_party_transfer {''0xaaaa''} Map.empty =
     Inr \<lparr> hasActivity = True, an_walletName = ''Unknown'', an_walletAddress = ''0xaaaa'',
           received = [], sent = [] \<rparr>"
  by code_simp

section \<open>Facts about the delivery queue\<close>

lemma requeued_fields [simp]:
  "m_chatId (requeued m k) = m_chatId m" "m_html (requeued m k) = m_html m"
  "extra_of (requeued m k) = extra_of m" "sink_call (requeued m k) = sink_call m"
  by (simp_all add: requeued_def extra_of_def sink_call_def)







lemma replicate_snoc: "replicate k x @ [x] = replicate (Suc k) x"
  by (simp add: replicate_append_same)



























section \<open>Facts about the range scan\<close>

lemma collect_wave_concat: "collect_wave results vs = results @ concat vs"
  unfolding collect_wave_def
  by (induction vs arbitrary: results) simp_all

lemma scan_waves_concat:
  "0 < c \<Longrightarrow> scan_waves sc bs c i results = results @ concat (map (processBlock sc) (drop i bs))"
proof (induction sc bs c i results rule: scan_waves.induct)
  case (1 sc bs c i results)
  show ?case
  proof (cases "i < length bs")
    case True
    have split: "drop i bs = take c (drop i bs) @ drop (i + c) bs"
      by (metis append_take_drop_id drop_drop add.commute)
    have "scan_waves sc bs c i results =
          scan_waves sc bs c (i + c) (collect_wave results (map (processBlock sc) (take c (drop i bs))))"
      using True 1(2) by (subst scan_waves.simps) (simp add: Let_def)
    also have "\<dots> = collect_wave results (map (processBlock sc) (take c (drop i bs)))
                  @ concat (map (processBlock sc) (drop (i + c) bs))"
      using 1(1)[OF _ refl refl] True 1(2) by simp
    also have "\<dots> = results @ concat (map (processBlock sc) (take c (drop i bs) @ drop (i + c) bs))"
      by (simp add: collect_wave_concat)
    finally show ?thesis using split by simp
  next
    case False
    then show ?thesis by (subst scan_waves.simps) simp
  qed
qed

lemma scanBlockRangeParallel_concat:
  "scanBlockRangeParallel sc s e = concat (map (processBlock sc) (block_numbers s e))"
proof (cases "0 < e - s + 1")
  case True
  then have "0 < nat (min 10 (e - s + 1))" by simp
  from scan_waves_concat[OF this, of sc "block_numbers s e" 0 "[]"]
  show ?thesis by (simp add: scanBlockRangeParallel_def Let_def)
next
  case False
  then have "block_numbers s e = []" by (simp add: block_numbers_def Let_def)
  then show ?thesis
    by (simp add: scanBlockRangeParallel_def Let_def scan_waves.simps)
qed

lemma processBlock_failed: "sc_getBlock sc n = Inl err \<Longrightarrow> processBlock sc n = []"
  by (simp add: processBlock_def getBlockTransactions_def)

lemma map_int_upt_upto: "n = nat (e - s + 1) \<Longrightarrow> map (\<lambda>i. s + int i) [0..<n] = [s..e]"
proof (induction n arbitrary: e)
  case 0
  then show ?case by simp
next
  case (Suc k)
  then have le: "s \<le> e" and k: "k = nat ((e - 1) - s + 1)" and ek: "s + int k = e" by auto
  from Suc.IH[OF k] have "map (\<lambda>i. s + int i) [0..<k] = [s..e - 1]" .
  then show ?case using upto_rec2[OF le] ek by simp
qed

lemma block_numbers_upto: "block_numbers s e = [s..e]"
  by (simp add: block_numbers_def Let_def map_int_upt_upto)

lemma processTransactions_paired:
  "processTransactions env (map fst ps) (map snd ps) =
     map (\<lambda>(t, r). parseTransaction env t r) ps"
  by (induction ps) auto

lemma zip_map_self: "zip xs (map g xs) = map (\<lambda>x. (x, g x)) xs"
  by (induction xs) simp_all

lemma valid_pairs:
  "filter (\<lambda>(t, r). r \<noteq> None) (map (\<lambda>x. (x, g x)) xs) =
     map (\<lambda>x. (x, g x)) (filter (\<lambda>x. g x \<noteq> None) xs)"
  by (induction xs) simp_all

text \<open>
  What the transactions of one fetched block contribute: each transaction that
  passes the filter and whose receipt was fetched gives one delta, in the order of
  the block.
\<close>

lemma block_deltas:
  "(let transactions = txs;
        filteredTxs = filter (filterTransaction sc) transactions
    in if length filteredTxs = 0 then []
       else
         let receipts = map (\<lambda>t. getTransactionReceipt sc (tx_hash t)) filteredTxs;
             valid = filter (\<lambda>(t, r). r \<noteq> None) (zip filteredTxs receipts);
             validTransactions = map fst valid;
             validReceipts = map snd valid
         in if length validTransactions = 0 then []
            else map formatOutput
                   (processTransactions (sc_env sc) validTransactions validReceipts)) =
   concat (map (\<lambda>t.
     if filterTransaction sc t then
       (case sc_getTransactionReceipt sc (tx_hash t) of
          Inl err \<Rightarrow> []
        | Inr None \<Rightarrow> []
        | Inr (Some r) \<Rightarrow> [formatOutput (parseTransaction (sc_env sc) t (Some r))])
     else []) txs)"
proof -
  let ?g = "\<lambda>t. getTransactionReceipt sc (tx_hash t)"
  let ?f = "filter (filterTransaction sc) txs"
  let ?valid = "map (\<lambda>t. (t, ?g t)) (filter (\<lambda>t. ?g t \<noteq> None) ?f)"
  have valid: "filter (\<lambda>(t, r). r \<noteq> None) (zip ?f (map ?g ?f)) = ?valid"
    by (simp only: zip_map_self valid_pairs)
  have "map formatOutput (processTransactions (sc_env sc) (map fst ?valid) (map snd ?valid)) =
        map (\<lambda>t. formatOutput (parseTransaction (sc_env sc) t (?g t)))
          (filter (\<lambda>t. ?g t \<noteq> None) ?f)"
    by (simp only: processTransactions_paired) (simp add: comp_def)
  also have "\<dots> = concat (map (\<lambda>t.
     if filterTransaction sc t then
       (case sc_getTransactionReceipt sc (tx_hash t) of
          Inl err \<Rightarrow> []
        | Inr None \<Rightarrow> []
        | Inr (Some r) \<Rightarrow> [formatOutput (parseTransaction (sc_env sc) t (Some r))])
     else []) txs)"
    by (induction txs)
       (auto simp: getTransactionReceipt_def split: sum.splits option.splits)
  finally have main:
    "map formatOutput (processTransactions (sc_env sc) (map fst ?valid) (map snd ?valid)) =
     concat (map (\<lambda>t.
       if filterTransaction sc t then
         (case sc_getTransactionReceipt sc (tx_hash t) of
            Inl err \<Rightarrow> []
          | Inr None \<Rightarrow> []
          | Inr (Some r) \<Rightarrow> [formatOutput (parseTransaction (sc_env sc) t (Some r))])
       else []) txs)" .
  show ?thesis
  proof (cases "?valid = []")
    case True
    then have "concat (map (\<lambda>t.
       if filterTransaction sc t then
         (case sc_getTransactionReceipt sc (tx_hash t) of
            Inl err \<Rightarrow> []
          | Inr None \<Rightarrow> []
          | Inr (Some r) \<Rightarrow> [formatOutput (parseTransaction (sc_env sc) t (Some r))])
       else []) txs) = []"
      using main by simp
    then show ?thesis
      unfolding Let_def valid using True by simp
  next
    case False
    then have "?f \<noteq> []" by (auto simp: filter_empty_conv)
    then show ?thesis
      unfolding Let_def valid using False main by (simp del: map_map)
  qed
qed

lemma processBlock_deltas:
  "processBlock sc n =
     (case sc_getBlock sc n of
        Inl err \<Rightarrow> []
      | Inr None \<Rightarrow> []
      | Inr (Some b) \<Rightarrow>
          (case blk_prefetchedTransactions b of
             None \<Rightarrow> []
           | Some txs \<Rightarrow>
               (case blk_timestamp b of
                  None \<Rightarrow> []
                | Some ts \<Rightarrow>
                    if ts = 0 then []
                    else concat (map (\<lambda>t.
                           if filterTransaction sc t then
                             (case sc_getTransactionReceipt sc (tx_hash t) of
                                Inl err \<Rightarrow> []
                              | Inr None \<Rightarrow> []
                              | Inr (Some r) \<Rightarrow>
                                  [formatOutput (parseTransaction (sc_env sc) t (Some r))])
                           else []) txs))))"
proof -
  have nil: "processBlock sc n = []" if "getBlockTransactions sc n = []"
    using that by (simp add: processBlock_def)
  show ?thesis
  proof (cases "sc_getBlock sc n")
    case (Inl err)
    then show ?thesis by (simp add: nil getBlockTransactions_def)
  next
    case (Inr ob)
    show ?thesis
    proof (cases ob)
      case None
      then show ?thesis using Inr by (simp add: nil getBlockTransactions_def)
    next
      case (Some b)
      show ?thesis
      proof (cases "blk_prefetchedTransactions b")
        case None
        then show ?thesis using Inr Some by (simp add: nil getBlockTransactions_def)
      next
        case txs: (Some txs)
        show ?thesis
        proof (cases "blk_timestamp b")
          case None
          then show ?thesis using Inr Some txs by (simp add: nil getBlockTransactions_def)
        next
          case ts: (Some ts)
          show ?thesis
          proof (cases "ts = 0")
            case True
            then show ?thesis using Inr Some txs ts by (simp add: nil getBlockTransactions_def)
          next
            case False
            then have g: "getBlockTransactions sc n = txs"
              using Inr Some txs ts by (simp add: getBlockTransactions_def)
            have "processBlock sc n =
                  concat (map (\<lambda>t.
                     if filterTransaction sc t then
                       (case sc_getTransactionReceipt sc (tx_hash t) of
                          Inl err \<Rightarrow> []
                        | Inr None \<Rightarrow> []
                        | Inr (Some r) \<Rightarrow>
                            [formatOutput (parseTransaction (sc_env sc) t (Some r))])
                     else []) txs)"
              unfolding processBlock_def g by (rule block_deltas)
            then show ?thesis using Inr Some txs ts False by simp
          qed
        qed
      qed
    qed
  qed
qed

text \<open>
  C8. The parallel scan is a total function of the ledger's answers, so no failure
  of a block reaches the caller. Its result is, in ascending block order, the
  concatenation over the blocks of the range of what each block contributes, and
  that contribution is determined by the ledger's answers for that block alone:
  nothing when the fetch of the block is rejected (or resolves to no block, to a
  block without transactions or without a valid time stamp), and otherwise one delta
  for each transaction of the block, in order, that passes the filter and whose
  receipt was fetched. Hence making the fetch of any set of blocks fail leaves the
  deltas of all other blocks as they are: the result is then the concatenation of
  what a scan of each remaining block alone returns on the unchanged ledger.
\<close>

theorem partial_failure_isolation:
  "scanBlockRangeParallel sc startBlock endBlock =
     concat (map (\<lambda>n.
       case sc_getBlock sc n of
         Inl err \<Rightarrow> []
       | Inr None \<Rightarrow> []
       | Inr (Some b) \<Rightarrow>
           (case blk_prefetchedTransactions b of
              None \<Rightarrow> []
            | Some txs \<Rightarrow>
                (case blk_timestamp b of
                   None \<Rightarrow> []
                 | Some ts \<Rightarrow>
                     if ts = 0 then []
                     else concat (map (\<lambda>t.
                            if filterTransaction sc t then
                              (case sc_getTransactionReceipt sc (tx_hash t) of
                                 Inl err \<Rightarrow> []
                               | Inr None \<Rightarrow> []
                               | Inr (Some r) \<Rightarrow>
                                   [formatOutput (parseTransaction (sc_env sc) t (Some r))])
                            else []) txs)))) [startBlock..endBlock]) \<and>
   scanBlockRangeParallel
       (sc\<lparr> sc_getBlock := (\<lambda>n. if n \<in> failing then Inl err else sc_getBlock sc n) \<rparr>)
       startBlock endBlock =
     concat (map (\<lambda>n. scanBlockRangeParallel sc n n)
       (filter (\<lambda>n. n \<notin> failing) [startBlock..endBlock]))"
proof -
  have single: "scanBlockRangeParallel s n n = processBlock s n" for s n
    by (simp add: scanBlockRangeParallel_concat block_numbers_upto)
  let ?sc = "sc\<lparr> sc_getBlock := (\<lambda>n. if n \<in> failing then Inl err else sc_getBlock sc n) \<rparr>"
  have same: "filterTransaction ?sc = filterTransaction sc"
    by (rule ext) (simp add: filterTransaction_def isTransactionRelevant_def split: option.splits)
  have blk: "processBlock ?sc n = (if n \<in> failing then [] else processBlock sc n)" for n
    by (simp add: processBlock_deltas same split: sum.splits option.splits
          cong: if_cong sum.case_cong option.case_cong)
  have "concat (map (processBlock ?sc) ns) =
        concat (map (processBlock sc) (filter (\<lambda>n. n \<notin> failing) ns))" for ns
    by (induction ns) (simp_all add: blk)
  then have second: "scanBlockRangeParallel ?sc startBlock endBlock =
     concat (map (\<lambda>n. scanBlockRangeParallel sc n n)
       (filter (\<lambda>n. n \<notin> failing) [startBlock..endBlock]))"
    by (simp add: scanBlockRangeParallel_concat block_numbers_upto single)
  have first: "scanBlockRangeParallel sc startBlock endBlock =
     concat (map (processBlock sc) [startBlock..endBlock])"
    by (simp add: scanBlockRangeParallel_concat block_numbers_upto)
  show ?thesis
  proof (rule conjI)
    show "scanBlockRangeParallel
       (sc\<lparr> sc_getBlock := (\<lambda>n. if n \<in> failing then Inl err else sc_getBlock sc n) \<rparr>)
       startBlock endBlock =
     concat (map (\<lambda>n. scanBlockRangeParallel sc n n)
       (filter (\<lambda>n. n \<notin> failing) [startBlock..endBlock]))"
      by (rule second)
  qed (simp only: first processBlock_deltas[abs_def])
qed

text \<open>
  The scenario of the specification, and a range of two waves. Over blocks 1 to 5
  with the fetch of block 3 failing, the scan returns the deltas of blocks 1, 2, 4
  and 5. Over blocks 1 to 12 of the ledger with four transactions in a block, the
  failing blocks 3 and 11 and the unusable blocks 5 and 7 contribute nothing, and
  every other block contributes its transactions \<open>a\<close> and \<open>d\<close> (block 2 only \<open>a\<close>);
  when the fetch of blocks 8 and 9 is made to fail as well, the deltas of the other
  blocks stay as they were.
\<close>

theorem partial_failure_isolation_witness:
  "map o_blockNumber (scanBlockRangeParallel flaky_scanner 1 5) = [1, 2, 4, 5] \<and>
   map (\<lambda>d. (o_blockNumber d, o_hash d)) (scanBlockRangeParallel busy_scanner 1 12) =
     [(1, ''a1''), (1, ''d1''), (2, ''a2''), (4, ''a4''), (4, ''d4''), (6, ''a6''), (6, ''d6''),
      (8, ''a8''), (8, ''d8''), (9, ''a9''), (9, ''d9''), (10, ''a10''), (10, ''d10''),
      (12, ''a12''), (12, ''d12'')] \<and>
   map (\<lambda>d. (o_blockNumber d, o_hash d))
     (scanBlockRangeParallel
        (busy_scanner\<lparr> sc_getBlock :=
           (\<lambda>n. if n \<in> {8, 9} then Inl ''timeout'' else sc_getBlock busy_scanner n) \<rparr>) 1 12) =
     [(1, ''a1''), (1, ''d1''), (2, ''a2''), (4, ''a4''), (4, ''d4''), (6, ''a6''), (6, ''d6''),
      (10, ''a10''), (10, ''d10''), (12, ''a12''), (12, ''d12'')]"
proof -
  note A = partial_failure_isolation[of flaky_scanner 1 5 "{}" "''timeout''", THEN conjunct1]
  note B = partial_failure_isolation[of busy_scanner 1 12 "{}" "''timeout''", THEN conjunct1]
  note C = partial_failure_isolation[of busy_scanner 1 12 "{8, 9}" "''timeout''", THEN conjunct2]
  have a: "map o_blockNumber (scanBlockRangeParallel flaky_scanner 1 5) = [1, 2, 4, 5]"
    unfolding A by code_simp
  have b: "map (\<lambda>d. (o_blockNumber d, o_hash d)) (scanBlockRangeParallel busy_scanner 1 12) =
     [(1, ''a1''), (1, ''d1''), (2, ''a2''), (4, ''a4''), (4, ''d4''), (6, ''a6''), (6, ''d6''),
      (8, ''a8''), (8, ''d8''), (9, ''a9''), (9, ''d9''), (10, ''a10''), (10, ''d10''),
      (12, ''a12''), (12, ''d12'')]"
    unfolding B by code_simp
  have single: "map (\<lambda>d. (o_blockNumber d, o_hash d))
       (concat (map (\<lambda>n. scanBlockRangeParallel busy_scanner n n)
         (filter (\<lambda>n. n \<notin> {8, 9}) [1..12]))) =
     [(1, ''a1''), (1, ''d1''), (2, ''a2''), (4, ''a4''), (4, ''d4''), (6, ''a6''), (6, ''d6''),
      (10, ''a10''), (10, ''d10''), (12, ''a12''), (12, ''d12'')]"
    by code_simp
  show ?thesis using a b single unfolding C by blast
qed

section \<open>Facts about the monitor\<close>

lemma keeps_checkpoint_refl: "keeps_checkpoint m m"
  by (simp add: keeps_checkpoint_def)

lemma keeps_checkpoint_trans:
  "keeps_checkpoint m m1 \<Longrightarrow> keeps_checkpoint m1 m2 \<Longrightarrow> keeps_checkpoint m m2"
  by (simp add: keeps_checkpoint_def)

lemma addNewWallet_keeps: "keeps_checkpoint m (addNewWallet env m w f)"
  by (simp add: addNewWallet_def keeps_checkpoint_def Let_def split: sum.splits)

lemma check_change_keeps: "keeps_checkpoint m (check_change env m c)"
  by (simp add: check_change_def Let_def addNewWallet_keeps keeps_checkpoint_refl)

lemma foldl_check_change_keeps: "keeps_checkpoint m (foldl (check_change env) m cs)"
proof (induction cs arbitrary: m)
  case Nil
  show ?case by (simp add: keeps_checkpoint_refl)
next
  case (Cons c cs)
  show ?case
    using keeps_checkpoint_trans[OF check_change_keeps[of m env c] Cons[of "check_change env m c"]]
    by simp
qed

lemma checkNewWalletFromERC20_keeps: "keeps_checkpoint m (checkNewWalletFromERC20 env m tx)"
  by (simp add: checkNewWalletFromERC20_def Let_def foldl_check_change_keeps keeps_checkpoint_refl
      split: option.splits)

lemma checkNewWalletFromBNB_keeps:
  "checkNewWalletFromBNB env m tx = Inr m1 \<Longrightarrow> keeps_checkpoint m m1"
  by (auto simp: checkNewWalletFromBNB_def Let_def addNewWallet_keeps keeps_checkpoint_refl
      split: option.splits if_splits)

lemma checkNewWallet_keeps: "keeps_checkpoint m (checkNewWallet env m tx)"
proof (cases "checkNewWalletFromBNB env m tx")
  case (Inl e)
  then show ?thesis by (simp add: checkNewWallet_def keeps_checkpoint_refl)
next
  case (Inr m1)
  from keeps_checkpoint_trans[OF checkNewWalletFromBNB_keeps[OF Inr] checkNewWalletFromERC20_keeps]
  show ?thesis using Inr by (simp add: checkNewWallet_def)
qed

lemma sendTransactionNotification_keeps: "keeps_checkpoint m (sendTransactionNotification env m tx a)"
  by (simp add: sendTransactionNotification_def keeps_checkpoint_def Let_def)

lemma process_transaction_frame:
  "lastProcessedBlock (process_transaction env m tx) = lastProcessedBlock m \<and>
   config (process_transaction env m tx) = config m \<and>
   redis (process_transaction env m tx) = redis m \<and>
   isRunning (process_transaction env m tx) = isRunning m \<and>
   journal (process_transaction env m tx) = journal m @ [Processed (o_hash tx)]"
proof -
  have "keeps_checkpoint m
     (case analyzeTransaction tx (monitoredAddresses m) (addressNames m) of
           Inl e \<Rightarrow> m
         | Inr a \<Rightarrow>
             if hasActivity a then
               (let m2 = sendTransactionNotification env m tx a
                in if enableNewWalletDetection (config m2) then checkNewWallet env m2 tx else m2)
             else m)"
    using keeps_checkpoint_trans[OF sendTransactionNotification_keeps checkNewWallet_keeps]
    by (auto simp: Let_def keeps_checkpoint_refl sendTransactionNotification_keeps split: sum.splits)
  then show ?thesis
    by (simp add: process_transaction_def Let_def keeps_checkpoint_def)
qed

lemma monitor_processTransactions_frame:
  "lastProcessedBlock (monitor_processTransactions env m txs) = lastProcessedBlock m \<and>
   config (monitor_processTransactions env m txs) = config m \<and>
   redis (monitor_processTransactions env m txs) = redis m \<and>
   isRunning (monitor_processTransactions env m txs) = isRunning m \<and>
   journal (monitor_processTransactions env m txs) = journal m @ map (\<lambda>tx. Processed (o_hash tx)) txs"
  unfolding monitor_processTransactions_def
proof (induction txs arbitrary: m)
  case Nil
  show ?case by simp
next
  case (Cons tx txs)
  show ?case
    using Cons[of "process_transaction env m tx"] process_transaction_frame[of env m tx]
    by simp
qed

lemma scanNewBlocks_idle:
  "currentBlock \<le> lastProcessedBlock m \<Longrightarrow> scanNewBlocks env m currentBlock = m"
  by (simp add: scanNewBlocks_def)

text \<open>The end of the batch that a tick scans.\<close>

lemma scanNewBlocks_step:
  assumes "lastProcessedBlock m < currentBlock"
  shows "lastProcessedBlock (scanNewBlocks env m currentBlock) =
           min currentBlock
             (lastProcessedBlock m +
                (if currentBlock - lastProcessedBlock m > 20 then min 20 (currentBlock - lastProcessedBlock m)
                 else cfg_batchSize (config m)))"
    and "config (scanNewBlocks env m currentBlock) = config m"
    and "isRunning (scanNewBlocks env m currentBlock) = isRunning m"
    and "redis (scanNewBlocks env m currentBlock) = redis m"
    and "journal (scanNewBlocks env m currentBlock) =
           journal m @
             [Scanned (lastProcessedBlock m + 1) (lastProcessedBlock (scanNewBlocks env m currentBlock))] @
             map (\<lambda>tx. Processed (o_hash tx))
               (scanBlockRangeParallel (scanner m) (lastProcessedBlock m + 1)
                  (lastProcessedBlock (scanNewBlocks env m currentBlock))) @
             [CheckpointWritten (lastProcessedBlock (scanNewBlocks env m currentBlock))]"
  using assms
  by (simp_all add: scanNewBlocks_def Let_def monitor_processTransactions_frame)

lemma scanNewBlocks_config: "config (scanNewBlocks env m currentBlock) = config m"
  by (cases "currentBlock \<le> lastProcessedBlock m")
     (simp_all add: scanNewBlocks_idle scanNewBlocks_step(2))

lemma scanNewBlocks_monotone:
  assumes "0 < cfg_batchSize (config m)"
  shows "lastProcessedBlock m \<le> lastProcessedBlock (scanNewBlocks env m currentBlock)"
proof (cases "currentBlock \<le> lastProcessedBlock m")
  case True
  then show ?thesis by (simp add: scanNewBlocks_idle)
next
  case False
  then have lt: "lastProcessedBlock m < currentBlock" by simp
  show ?thesis
    unfolding scanNewBlocks_step(1)[OF lt] using assms lt by auto
qed

lemma startMonitoringLoop_monotone:
  "0 < cfg_batchSize (config m) \<Longrightarrow>
   lastProcessedBlock m \<le> lastProcessedBlock (startMonitoringLoop env m heads)"
proof (induction heads arbitrary: m)
  case Nil
  show ?case by simp
next
  case (Cons h heads)
  show ?case
  proof (cases "isRunning m")
    case True
    let ?m1 = "scanNewBlocks env m (getLatestBlockNumber h)"
    have c: "0 < cfg_batchSize (config ?m1)"
      using Cons.prems by (simp add: scanNewBlocks_config)
    from Cons.IH[OF c] scanNewBlocks_monotone[OF Cons.prems, of env "getLatestBlockNumber h"] True
    show ?thesis by simp
  next
    case False
    then show ?thesis by simp
  qed
qed

text \<open>
  C9, as the code has it. With a positive configured batch size the checkpoint never
  decreases, over one tick and over any number of ticks of the loop. A tick with no
  new block writes nothing; any other tick writes the checkpoint once, as the last
  step after the scan of the whole batch from the block after the old checkpoint to
  the new one and after the processing of every transaction the scan returned, and
  the new checkpoint is not beyond the ledger's head.
\<close>

theorem checkpoint_monotone_and_written_last:
  assumes "0 < cfg_batchSize (config m)"
  shows "lastProcessedBlock m \<le> lastProcessedBlock (scanNewBlocks env m currentBlock) \<and>
         lastProcessedBlock m \<le> lastProcessedBlock (startMonitoringLoop env m heads) \<and>
         (currentBlock \<le> lastProcessedBlock m \<longrightarrow> scanNewBlocks env m currentBlock = m) \<and>
         (lastProcessedBlock m < currentBlock \<longrightarrow>
            (let endBlock = lastProcessedBlock (scanNewBlocks env m currentBlock) in
             lastProcessedBlock m < endBlock \<and> endBlock \<le> currentBlock \<and>
             journal (scanNewBlocks env m currentBlock) =
               journal m @
                 [Scanned (lastProcessedBlock m + 1) endBlock] @
                 map (\<lambda>tx. Processed (o_hash tx))
                   (scanBlockRangeParallel (scanner m) (lastProcessedBlock m + 1) endBlock) @
                 [CheckpointWritten endBlock]))"
proof -
  have adv: "lastProcessedBlock m < lastProcessedBlock (scanNewBlocks env m currentBlock) \<and>
             lastProcessedBlock (scanNewBlocks env m currentBlock) \<le> currentBlock"
    if lt: "lastProcessedBlock m < currentBlock"
    unfolding scanNewBlocks_step(1)[OF lt] using assms lt by auto
  show ?thesis
    unfolding Let_def
    using scanNewBlocks_monotone[OF assms] startMonitoringLoop_monotone[OF assms]
      scanNewBlocks_idle adv scanNewBlocks_step(5)
    by blast
qed

theorem checkpoint_monotone_and_written_last_witness:
  "cfg_batchSize (config example_monitor) = 5 \<and>
   0 < cfg_batchSize (config example_monitor) \<and>
   lastProcessedBlock example_monitor = 100 \<and>
   lastProcessedBlock example_monitor < 103 \<and>
   lastProcessedBlock (scanNewBlocks example_env example_monitor 103) = 103 \<and>
   journal (scanNewBlocks example_env example_monitor 103) =
     [Scanned 101 103, Processed ''0x01'', Processed ''0x01'', Processed ''0x01'', CheckpointWritten 103] \<and>
   100 \<le> lastProcessedBlock (startMonitoringLoop example_env example_monitor [Inr 103, Inl ''timeout'', Inr 104])"
proof -
  have c: "0 < cfg_batchSize (config example_monitor)"
    by code_simp
  have l: "lastProcessedBlock example_monitor = 100"
    by (simp add: example_monitor_def)
  have e: "lastProcessedBlock (scanNewBlocks example_env example_monitor 103) = 103"
    by code_simp
  have s: "map (\<lambda>tx. Processed (o_hash tx)) (scanBlockRangeParallel (scanner example_monitor) 101 103) =
           [Processed ''0x01'', Processed ''0x01'', Processed ''0x01'']"
    by code_simp
  have j: "journal example_monitor = []"
    by (simp add: example_monitor_def)
  note w = checkpoint_monotone_and_written_last[OF c, of example_env 103
      "[Inr 103, Inl ''timeout'', Inr 104]"]
  have c5: "cfg_batchSize (config example_monitor) = 5"
    by code_simp
  have "0 < cfg_batchSize (config example_monitor) \<and>
   lastProcessedBlock example_monitor = 100 \<and>
   lastProcessedBlock example_monitor < 103 \<and>
   lastProcessedBlock (scanNewBlocks example_env example_monitor 103) = 103 \<and>
   journal (scanNewBlocks example_env example_monitor 103) =
     [Scanned 101 103, Processed ''0x01'', Processed ''0x01'', Processed ''0x01'', CheckpointWritten 103] \<and>
   100 \<le> lastProcessedBlock (startMonitoringLoop example_env example_monitor [Inr 103, Inl ''timeout'', Inr 104])"
    using w c l e s j by (simp add: Let_def)
  then show ?thesis using c5 by simp
qed

text \<open>
  The property as the specification states it fails when the configured batch size
  is negative, which the constructor accepts: from checkpoint 100 with the head at
  105 and a batch size of -3, the tick scans no block and writes the checkpoint 97.
\<close>

theorem checkpoint_rewound_counterexample:
  "cfg_batchSize (config negative_batch_monitor) = - 3 \<and>
   lastProcessedBlock negative_batch_monitor = 100 \<and>
   lastProcessedBlock (scanNewBlocks example_env negative_batch_monitor 105) = 97 \<and>
   \<not> lastProcessedBlock negative_batch_monitor
       \<le> lastProcessedBlock (scanNewBlocks example_env negative_batch_monitor 105)"
  by code_simp

subsection \<open>The native-only path\<close>

lemma dot_not_space: "\<not> is_space CHR ''.''"
  by (simp add: is_space_def)

lemma dropWhile_keeps: "x \<in> set xs \<Longrightarrow> \<not> P x \<Longrightarrow> x \<in> set (dropWhile P xs)"
  by (induction xs) auto

lemma trim_keeps_dot:
  assumes "CHR ''.'' \<in> set s"
  shows "CHR ''.'' \<in> set (trim s)"
proof -
  have "CHR ''.'' \<in> set (dropWhile is_space s)"
    using assms dot_not_space by (rule dropWhile_keeps)
  then have "CHR ''.'' \<in> set (rev (dropWhile is_space s))" by simp
  then have "CHR ''.'' \<in> set (dropWhile is_space (rev (dropWhile is_space s)))"
    using dot_not_space by (rule dropWhile_keeps)
  then show ?thesis by (simp add: trim_def)
qed

lemma digits_to_bigint_dot:
  "CHR ''.'' \<in> set z \<Longrightarrow> \<not> ok CHR ''.'' \<Longrightarrow> digits_to_bigint ok k z = None"
  by (auto simp: digits_to_bigint_def list_all_iff)

lemma dot_no_digit:
  "\<not> is_digit CHR ''.''" "\<not> is_hex_digit CHR ''.''" "\<not> is_oct_digit CHR ''.''" "\<not> is_bin_digit CHR ''.''"
  by (simp_all add: is_digit_def is_hex_digit_def is_oct_digit_def is_bin_digit_def)

lemma in_tl: "x \<in> set cs \<Longrightarrow> cs \<noteq> [] \<Longrightarrow> x \<noteq> hd cs \<Longrightarrow> x \<in> set (tl cs)"
  by (cases cs) auto

lemma StringToBigInt_trimmed_dot:
  assumes d: "CHR ''.'' \<in> set t"
  shows "StringToBigInt_trimmed t = None"
proof (cases t)
  case Nil
  then show ?thesis using d by simp
next
  case (Cons c cs)
  have n1: "digits_to_bigint is_digit 10 z = None" if "CHR ''.'' \<in> set z" for z
    using that digits_to_bigint_dot[of z is_digit 10] dot_no_digit(1) by simp
  have n2: "digits_to_bigint is_hex_digit 16 z = None" if "CHR ''.'' \<in> set z" for z
    using that digits_to_bigint_dot[of z is_hex_digit 16] dot_no_digit(2) by simp
  have n3: "digits_to_bigint is_oct_digit 8 z = None" if "CHR ''.'' \<in> set z" for z
    using that digits_to_bigint_dot[of z is_oct_digit 8] dot_no_digit(3) by simp
  have n4: "digits_to_bigint is_bin_digit 2 z = None" if "CHR ''.'' \<in> set z" for z
    using that digits_to_bigint_dot[of z is_bin_digit 2] dot_no_digit(4) by simp
  have whole: "CHR ''.'' \<in> set (c # cs)" using d Cons by simp
  have incs: "CHR ''.'' \<in> set cs" if "c \<noteq> CHR ''.''"
    using d Cons that by auto
  have intl: "CHR ''.'' \<in> set (tl cs)" if "c \<noteq> CHR ''.''" "cs \<noteq> []" "hd cs \<noteq> CHR ''.''"
    using in_tl[OF incs[OF that(1)] that(2)] that(3) by metis
  show ?thesis
    unfolding Cons StringToBigInt_trimmed.simps
    using n1[OF whole] n1[OF incs] n2[OF intl] n3[OF intl] n4[OF intl]
    by auto
qed

lemma StringToBigInt_dot: "CHR ''.'' \<in> set s \<Longrightarrow> StringToBigInt s = None"
  by (simp add: StringToBigInt_def StringToBigInt_trimmed_dot trim_keeps_dot)

lemma formatEther_has_dot: "CHR ''.'' \<in> set (formatEther v)"
  by (simp add: formatEther_def formatUnits_def Let_def)

lemma formatted_amount_never_meets_minimum: "\<not> string_ge_bigint (formatEther v) minimum"
  by (simp add: string_ge_bigint_def StringToBigInt_dot formatEther_has_dot)

text \<open>
  Whatever the configured minimum, the native-only path enrolls nobody for a
  transaction that the classifier produced from a transaction with a recipient.
\<close>

lemma native_path_never_enrolls:
  assumes "truthy (tx_to t)"
  shows "checkNewWalletFromBNB env m (formatOutput (parseTransaction penv t rcpt)) = Inr m"
proof -
  obtain a where to: "tx_to t = Some a" using assms by (cases "tx_to t") (auto simp: truthy_def)
  have bnb: "p_bnbChange (parseTransaction penv t rcpt) =
       (if tx_value t > 0
        then \<lparr> bnb_from = ''-'' @ formatEther (tx_value t), bnb_to = formatEther (tx_value t) \<rparr>
        else \<lparr> bnb_from = ''0'', bnb_to = ''0'' \<rparr>)"
    using assms
    by (simp add: parseTransaction_def analyzeBNBChange_def analyzeTransactionType_def Let_def
        analyzeERC20Events_keeps split: option.splits)
  have pto: "p_to (parseTransaction penv t rcpt) = Some a"
  proof -
    have k: "p_to (analyzeERC20Events penv logs r) = p_to r" for logs r
      by (induction logs arbitrary: r) (simp_all add: Let_def split: option.splits list.splits)
    show ?thesis
      using to
      by (simp add: parseTransaction_def analyzeBNBChange_def analyzeTransactionType_def Let_def k
          split: option.splits)
  qed
  show ?thesis
    by (simp add: checkNewWalletFromBNB_def formatOutput_def Let_def bnb pto
        formatted_amount_never_meets_minimum)
qed

text \<open>
  C5, at a failing input. One native unit is sent, with no token change, to the
  untracked account \<open>0xbbbb\<close>, which has no code, and the configured minimum is 0:
  the recipient is eligible as the specification has it. The code compares the decimal
  string \<open>1.0\<close> with the BigInt 0, which is false, and leaves the monitor as it was.
\<close>

theorem native_path_skips_eligible_recipient:
  "cfg_minValue (config example_monitor) = 0 \<and>
   o_to native_transfer_tx = Some ''0xbbbb'' \<and>
   ''0xbbbb'' \<notin> monitoredAddresses example_monitor \<and>
   isEOA (sc_env (scanner example_monitor)) ''0xbbbb'' \<and>
   o_erc20Changes native_transfer_tx = Some [] \<and>
   map_option fb_to (o_bnbChange native_transfer_tx) = Some ''1.0'' \<and>
   \<not> string_ge_bigint ''1.0'' 0 \<and>
   checkNewWalletFromBNB example_env example_monitor native_transfer_tx = Inr example_monitor"
proof -
  have a: "cfg_minValue (config example_monitor) = 0" "''0xbbbb'' \<notin> monitoredAddresses example_monitor"
    by (simp_all add: example_monitor_def)
  have b: "o_to native_transfer_tx = Some ''0xbbbb''"
    "isEOA (sc_env (scanner example_monitor)) ''0xbbbb''"
    "o_erc20Changes native_transfer_tx = Some []"
    "map_option fb_to (o_bnbChange native_transfer_tx) = Some ''1.0''"
    "\<not> string_ge_bigint ''1.0'' 0"
    by code_simp+
  have t: "truthy (tx_to plain_transfer)"
    by (simp add: plain_transfer_def truthy_def)
  have c: "checkNewWalletFromBNB example_env example_monitor native_transfer_tx = Inr example_monitor"
    unfolding native_transfer_tx_def by (rule native_path_never_enrolls[OF t])
  show ?thesis using a b c by blast
qed

theorem native_path_skips_eligible_recipient_witness:
  "(case checkNewWalletFromBNB example_env example_monitor native_transfer_tx of
      Inl e \<Rightarrow> False
    | Inr m \<Rightarrow>
        messageQueue (bot m) = [] \<and> newWalletsAdded (stats m) = 0 \<and>
        monitoredAddresses m = {''0xaaaa''})"
  using native_path_skips_eligible_recipient
  by (simp add: example_monitor_def new_TgBot_def)

subsection \<open>Enrollment\<close>

lemma addNewWallet_store: "redis (addNewWallet env m w f) = redis m"
  using addNewWallet_keeps[of m env w f] by (simp add: keeps_checkpoint_def)

lemma checkNewWallet_store: "redis (checkNewWallet env m tx) = redis m"
  using checkNewWallet_keeps[of m env tx] by (simp add: keeps_checkpoint_def)

text \<open>
  C1, at a failing input. The tracked \<open>0xaaaa\<close> sends 1000 USDT to \<open>0xcccc\<close>,
  which is untracked, not stored, not exchange-custodied and has no code. The
  detection enrolls \<open>0xcccc\<close>: it joins the tracked set, the counter of new wallets
  becomes 1 and exactly one notification is queued. No node is stored for it: the
  store still answers that \<open>0xcccc\<close> does not exist.
\<close>

theorem enrollment_is_not_persisted:
  "\<not> existsWallet (redis example_monitor) ''0xcccc'' \<and>
   ''0xcccc'' \<notin> monitoredAddresses example_monitor \<and>
   getIsCexDict example_env ''0xcccc'' = Inr False \<and>
   isEOA (sc_env (scanner example_monitor)) ''0xcccc'' \<and>
   ''0xcccc'' \<in> monitoredAddresses (checkNewWallet example_env example_monitor usdt_transfer) \<and>
   newWalletsAdded (stats (checkNewWallet example_env example_monitor usdt_transfer)) = 1 \<and>
   map m_html (messageQueue (bot (checkNewWallet example_env example_monitor usdt_transfer))) =
     [''new wallet 0xcccc''] \<and>
   \<not> existsWallet (redis (checkNewWallet example_env example_monitor usdt_transfer)) ''0xcccc'' \<and>
   getNodeInfo (redis (checkNewWallet example_env example_monitor usdt_transfer)) ''0xcccc'' = None"
  by code_simp

theorem enrollment_is_not_persisted_witness:
  "existsWallet (redis (checkNewWallet example_env example_monitor usdt_transfer)) ''0xcccc'' = False \<and>
   length (messageQueue (bot (checkNewWallet example_env example_monitor usdt_transfer))) = 1"
proof -
  let ?q = "messageQueue (bot (checkNewWallet example_env example_monitor usdt_transfer))"
  have e: "map m_html ?q = [''new wallet 0xcccc'']"
    and n: "\<not> existsWallet (redis (checkNewWallet example_env example_monitor usdt_transfer)) ''0xcccc''"
    using enrollment_is_not_persisted by blast+
  have "length ?q = length (map m_html ?q)" by simp
  also have "\<dots> = 1" unfolding e by simp
  finally show ?thesis using n by simp
qed


subsection \<open>Duplicate enrollment\<close>

text \<open>
  The manual enrollment does what the specification asks: after \<open>addWallet\<close> for a
  wallet, a second \<open>addWallet\<close> for the same wallet, in whatever spelling, is
  refused and changes nothing, and the node stored for the wallet is the one that
  the first call left.
\<close>

lemma addWallet_stored:
  assumes "wallet \<noteq> []" "name \<noteq> []"
  shows "existsWallet (redis (snd (addWallet m newId wallet name))) wallet"
proof (cases "existsWallet (redis m) wallet")
  case True
  then show ?thesis using assms by (simp add: addWallet_def)
next
  case False
  have "existsWallet (snd (addNodeLite (redis m) newId wallet name [])) wallet"
    by (simp add: existsWallet_addNodeLite)
  then show ?thesis
    using assms False by (auto simp: addWallet_def split: prod.splits sum.splits)
qed

lemma manual_enrollment_twice:
  assumes ne: "wallet \<noteq> []" "name \<noteq> []" "wallet2 \<noteq> []" "name2 \<noteq> []"
    and same: "toLowerCase wallet2 = toLowerCase wallet"
  shows "res_success (fst (addWallet (snd (addWallet m newId wallet name)) newId2 wallet2 name2)) = False \<and>
         snd (addWallet (snd (addWallet m newId wallet name)) newId2 wallet2 name2) =
           snd (addWallet m newId wallet name) \<and>
         existsWallet (redis (snd (addWallet m newId wallet name))) wallet"
proof -
  let ?m1 = "snd (addWallet m newId wallet name)"
  have ex: "existsWallet (redis ?m1) wallet" using addWallet_stored[OF ne(1,2)] .
  then have "existsWallet (redis ?m1) wallet2"
    using existsWallet_cong_lower[OF same] by simp
  then show ?thesis using ex ne by (simp add: addWallet_def)
qed

text \<open>
  C3, on the path of the detector. \<open>addNewWallet\<close> asks the store whether the
  wallet exists and never inserts it, so for a wallet that is not stored and not
  exchange-custodied a second enrollment finds it absent again: no node is stored
  for the wallet after one enrollment or after two, and the second one is neither
  refused nor without effect, since it queues a second alert and counts a second new
  wallet.
\<close>

theorem second_detection_is_announced_again:
  assumes fresh: "\<not> existsWallet (redis m) w" and nocex: "getIsCexDict env w = Inr False"
  shows "\<not> existsWallet (redis (addNewWallet env m w f)) w \<and>
         getNodeInfo (redis (addNewWallet env (addNewWallet env m w f) w f)) w = None \<and>
         length (messageQueue (bot (addNewWallet env (addNewWallet env m w f) w f))) =
           length (messageQueue (bot m)) + 2 \<and>
         newWalletsAdded (stats (addNewWallet env (addNewWallet env m w f) w f)) =
           newWalletsAdded (stats m) + 2"
proof -
  let ?m1 = "addNewWallet env m w f"
  have r1: "redis ?m1 = redis m" by (rule addNewWallet_store)
  have r2: "redis (addNewWallet env ?m1 w f) = redis m"
    using addNewWallet_store[of env ?m1 w f] r1 by simp
  have none: "getNodeInfo (redis m) w = None"
    using fresh getNodeInfo_exists[of "redis m" w] by simp
  have step: "length (messageQueue (bot (addNewWallet env x w f))) = length (messageQueue (bot x)) + 1 \<and>
      newWalletsAdded (stats (addNewWallet env x w f)) = newWalletsAdded (stats x) + 1"
    if "\<not> existsWallet (redis x) w" for x
    using that nocex by (simp add: addNewWallet_def Let_def sendHtml_def queueMessage_def)
  have f1: "\<not> existsWallet (redis ?m1) w" using fresh r1 by simp
  show ?thesis
    using step[OF fresh] step[OF f1] f1 r2 none by simp
qed

text \<open>
  The wallet \<open>0xcccc\<close> of the scenario, enrolled twice by the detector of the example
  monitor: two alerts are queued, two new wallets are counted and no node is stored;
  enrolled twice with \<open>addWallet\<close>, it is stored once, and the second call is
  refused.
\<close>

theorem second_detection_is_announced_again_witness:
  "\<not> existsWallet (redis example_monitor) ''0xcccc'' \<and>
   getIsCexDict example_env ''0xcccc'' = Inr False \<and>
   getNodeInfo (redis (addNewWallet example_env
      (addNewWallet example_env example_monitor ''0xcccc'' ''0xaaaa'') ''0xcccc'' ''0xaaaa'')) ''0xcccc'' = None \<and>
   map m_html (messageQueue (bot (addNewWallet example_env
      (addNewWallet example_env example_monitor ''0xcccc'' ''0xaaaa'') ''0xcccc'' ''0xaaaa''))) =
     [''new wallet 0xcccc'', ''new wallet 0xcccc''] \<and>
   newWalletsAdded (stats (addNewWallet example_env
      (addNewWallet example_env example_monitor ''0xcccc'' ''0xaaaa'') ''0xcccc'' ''0xaaaa'')) = 2 \<and>
   map_option info_id (getNodeInfo (redis (snd (addWallet
      (snd (addWallet example_monitor ''id2'' ''0xcccc'' ''Carol'')) ''id3'' ''0xCCCC'' ''Carol''))) ''0xcccc'') =
     Some ''id2'' \<and>
   res_success (fst (addWallet
      (snd (addWallet example_monitor ''id2'' ''0xcccc'' ''Carol'')) ''id3'' ''0xCCCC'' ''Carol'')) = False"
proof -
  have fresh: "\<not> existsWallet (redis example_monitor) ''0xcccc''" by code_simp
  have nocex: "getIsCexDict example_env ''0xcccc'' = Inr False" by (simp add: example_env_def)
  have q: "map m_html (messageQueue (bot (addNewWallet example_env
      (addNewWallet example_env example_monitor ''0xcccc'' ''0xaaaa'') ''0xcccc'' ''0xaaaa''))) =
     [''new wallet 0xcccc'', ''new wallet 0xcccc'']"
    by code_simp
  have n0: "newWalletsAdded (stats example_monitor) = 0" by (simp add: example_monitor_def)
  have manual: "map_option info_id (getNodeInfo (redis (snd (addWallet
      (snd (addWallet example_monitor ''id2'' ''0xcccc'' ''Carol'')) ''id3'' ''0xCCCC'' ''Carol''))) ''0xcccc'') =
     Some ''id2''"
    "res_success (fst (addWallet
      (snd (addWallet example_monitor ''id2'' ''0xcccc'' ''Carol'')) ''id3'' ''0xCCCC'' ''Carol'')) = False"
    by code_simp+
  show ?thesis
    using second_detection_is_announced_again[OF fresh nocex, of "''0xaaaa''"] fresh nocex q n0 manual
    by simp
qed

end
